theory Spec2Isabelle
  imports Complex_Main "HOL-Library.Multiset"
begin

section \<open>Data model (types.ts)\<close>

text \<open>
  A JavaScript number is a binary64 value. The finite ones are real numbers, and this is
  how they are modelled: as elements of \<^typ>\<open>real\<close>, on which comparison, \<open>Math.max\<close>,
  the test against \<open>0\<close> and the integer literals of the source are exact. Sums and
  differences are not: the platform rounds them, so \<open>+\<close> and \<open>-\<close> on numbers are the
  platform's operations \<open>num_add\<close> and \<open>num_sub\<close> below, of which nothing is assumed.
  \<open>Infinity\<close> and \<open>NaN\<close> have no counterpart. An optional field (\<open>width?: number\<close>)
  is an \<^typ>\<open>real option\<close>, \<open>None\<close> standing for \<open>undefined\<close>. Field names carry a prefix
  where the bare name would clash with another record or a HOL constant.
\<close>

datatype ItemType = TEXT | IMAGE | STICKER | EMOJI

record CanvasItem =
  item_id :: string
  item_type :: ItemType
  content :: string
  item_x :: real
  item_y :: real
  item_width :: "real option"
  item_height :: "real option"
  rotation :: real
  author :: string
  color :: "string option"
  textColor :: "string option"
  item_createdAt :: real

record User =
  user_id :: string
  user_name :: string

datatype BackgroundSize = Cover | Contain | Auto

record Board =
  board_id :: string
  topic :: string
  items :: "CanvasItem list"
  board_createdAt :: real
  host :: string
  backgroundImage :: "string option"
  backgroundSize :: "BackgroundSize option"

section \<open>JavaScript primitives used by the handlers\<close>

text \<open>
  Truthiness: \<open>undefined\<close>, \<open>null\<close>, the number \<open>0\<close> and the empty string are falsy
  (\<open>NaN\<close> has no counterpart in \<^typ>\<open>real\<close>). \<open>a || b\<close> yields \<open>a\<close> when it is truthy
  and \<open>b\<close> otherwise.
\<close>

definition truthy_num :: "real option \<Rightarrow> bool" where
  "truthy_num v = (case v of None \<Rightarrow> False | Some r \<Rightarrow> r \<noteq> 0)"

definition truthy_str :: "string option \<Rightarrow> bool" where
  "truthy_str v = (case v of None \<Rightarrow> False | Some s \<Rightarrow> s \<noteq> [])"

definition js_or :: "real option \<Rightarrow> real option \<Rightarrow> real option" where
  "js_or a b = (if truthy_num a then a else b)"

text \<open>\<open>a || d\<close> with a numeric default \<open>d\<close>: the result is a number.\<close>

definition js_or_num :: "real option \<Rightarrow> real \<Rightarrow> real" where
  "js_or_num a d = (case a of None \<Rightarrow> d | Some r \<Rightarrow> if r \<noteq> 0 then r else d)"

text \<open>\<open>Array.prototype.findIndex\<close>: the first index whose element satisfies the
  predicate, \<open>-1\<close> when there is none.\<close>

fun findIndex :: "('a \<Rightarrow> bool) \<Rightarrow> 'a list \<Rightarrow> int" where
  "findIndex P [] = - 1"
| "findIndex P (a # as) =
     (if P a then 0
      else (let r = findIndex P as in if r < 0 then - 1 else r + 1))"

text \<open>\<open>Array.prototype.find\<close> is \<^const>\<open>find\<close> of the list library
  (\<open>None\<close> for \<open>undefined\<close>).\<close>

section \<open>Platform services\<close>

text \<open>
  \<open>JSON.parse\<close>, \<open>JSON.stringify\<close>, the storage quota and the rounding arithmetic on
  numbers belong to the browser, not to the repository; they are parameters of the model.
  \<open>JSON.parse\<close> either returns a value or raises; \<open>localStorage.setItem\<close> raises when
  the quota is exceeded; \<open>num_add a b\<close> is the number \<open>a + b\<close> evaluates to and
  \<open>num_sub a b\<close> the number \<open>a - b\<close> evaluates to.
\<close>

datatype json =
    JNull
  | JBool bool
  | JNum real
  | JStr string
  | JArr "json list"
  | JObj "(string \<times> json) list"

datatype js_error = SyntaxError | QuotaExceededError

record platform =
  JSON_parse :: "string \<Rightarrow> js_error + json"
  JSON_stringify :: "Board list \<Rightarrow> string"
  quota_exceeded :: "string \<Rightarrow> bool"
  num_add :: "real \<Rightarrow> real \<Rightarrow> real"
  num_sub :: "real \<Rightarrow> real \<Rightarrow> real"

type_synonym localStorage = "string \<rightharpoonup> string"

definition localStorage_getItem :: "localStorage \<Rightarrow> string \<Rightarrow> string option" where
  "localStorage_getItem st k = st k"

definition localStorage_setItem ::
  "platform \<Rightarrow> localStorage \<Rightarrow> string \<Rightarrow> string \<Rightarrow> js_error + localStorage" where
  "localStorage_setItem p st k v =
     (if quota_exceeded p v then Inl QuotaExceededError else Inr (st(k \<mapsto> v)))"

definition STORAGE_KEY_BOARDS :: string where
  "STORAGE_KEY_BOARDS = ''collab_canvas_boards''"

section \<open>Application state (App.tsx)\<close>

record point =
  pt_x :: real
  pt_y :: real

record PointerEvent =
  clientX :: real
  clientY :: real

record sync_msg =
  msg_type :: string
  payload :: Board

text \<open>
  The component's state hooks, the durable storage and the messages posted on the
  broadcast channel (\<open>None\<close> when the channel could not be constructed). Each handler
  is a function from the state it was rendered with to the state after its updates; the
  component is rendered again between two events, so a handler sees the state its
  predecessor left. Of a pointer event only the coordinates matter here; capturing and
  releasing the pointer on the target element is left to the browser.
\<close>

record app =
  user :: "User option"
  currentBoard :: "Board option"
  boards :: "Board list"
  draggedItemId :: "string option"
  resizingItemId :: "string option"
  interactionStart :: point
  itemInitialState :: "CanvasItem option"
  storage :: localStorage
  channel :: "sync_msg list option"

subsection \<open>Helpers\<close>

text \<open>\<open>safeJsonParse\<close>: a falsy string gives the fallback without parsing; an exception
  of \<open>JSON.parse\<close> is caught and gives the fallback too.\<close>

definition safeJsonParse :: "platform \<Rightarrow> string option \<Rightarrow> json \<Rightarrow> js_error + json" where
  "safeJsonParse p str fallback =
     (case str of
        None \<Rightarrow> Inr fallback
      | Some s \<Rightarrow>
          if s = [] then Inr fallback
          else (case JSON_parse p s of
                  Inl e \<Rightarrow> Inr fallback
                | Inr v \<Rightarrow> Inr v))"

definition loadBoards :: "platform \<Rightarrow> localStorage \<Rightarrow> js_error + json" where
  "loadBoards p st =
     safeJsonParse p (localStorage_getItem st STORAGE_KEY_BOARDS) (JArr [])"

subsection \<open>Persistence\<close>

text \<open>The write to storage inside the state updaters: a quota failure is caught and the
  storage keeps its old contents.\<close>

definition persist_boards :: "platform \<Rightarrow> localStorage \<Rightarrow> Board list \<Rightarrow> localStorage" where
  "persist_boards p st bs =
     (case localStorage_setItem p st STORAGE_KEY_BOARDS (JSON_stringify p bs) of
        Inl e \<Rightarrow> st
      | Inr st' \<Rightarrow> st')"

text \<open>The \<open>setBoards\<close> updater of \<open>saveAndBroadcastBoard\<close>.\<close>

definition save_boards :: "Board list \<Rightarrow> Board \<Rightarrow> Board list" where
  "save_boards prev updatedBoard =
     (let idx = findIndex (\<lambda>b. board_id b = board_id updatedBoard) prev
      in if idx \<ge> 0 then prev[nat idx := updatedBoard] else prev @ [updatedBoard])"

definition saveAndBroadcastBoard :: "platform \<Rightarrow> app \<Rightarrow> Board \<Rightarrow> app" where
  "saveAndBroadcastBoard p s updatedBoard =
     (let newBoards = save_boards (boards s) updatedBoard
      in s\<lparr> currentBoard := Some updatedBoard,
            boards := newBoards,
            storage := persist_boards p (storage s) newBoards,
            channel := map_option
              (\<lambda>out. out @ [\<lparr> msg_type = ''UPDATE_BOARD'', payload = updatedBoard \<rparr>])
              (channel s) \<rparr>)"

text \<open>The \<open>onmessage\<close> handler of the broadcast channel: its \<open>setBoards\<close> updater, then
  the whole handler.\<close>

definition receive_boards :: "Board list \<Rightarrow> Board \<Rightarrow> Board list" where
  "receive_boards prev updatedBoard =
     (let idx = findIndex (\<lambda>b. board_id b = board_id updatedBoard) prev
      in if idx \<ge> 0 then prev[nat idx := updatedBoard] else prev @ [updatedBoard])"

definition onmessage :: "platform \<Rightarrow> app \<Rightarrow> sync_msg \<Rightarrow> app" where
  "onmessage p s ev =
     (if msg_type ev = ''UPDATE_BOARD'' then
        (let updatedBoard = payload ev;
             newBoards = receive_boards (boards s) updatedBoard
         in s\<lparr> boards := newBoards,
               storage := persist_boards p (storage s) newBoards,
               currentBoard :=
                 (case currentBoard s of
                    None \<Rightarrow> None
                  | Some prev \<Rightarrow>
                      if board_id prev = board_id updatedBoard then Some updatedBoard
                      else Some prev) \<rparr>)
      else s)"

subsection \<open>Canvas logic\<close>

text \<open>\<open>deleteItem\<close>: every item with the id is dropped from the current board.\<close>

definition deleteItem :: "platform \<Rightarrow> app \<Rightarrow> string \<Rightarrow> app" where
  "deleteItem p s ident =
     (case currentBoard s of
        None \<Rightarrow> s
      | Some b \<Rightarrow>
          saveAndBroadcastBoard p s (b\<lparr> items := filter (\<lambda>i. item_id i \<noteq> ident) (items b) \<rparr>))"

datatype direction = Front | Back

text \<open>\<open>changeItemLayer\<close>: \<open>splice(index, 1)\<close> removes the element at \<open>index\<close>,
  \<open>push\<close> appends it and \<open>unshift\<close> prepends it.\<close>

definition changeItemLayer :: "platform \<Rightarrow> app \<Rightarrow> string \<Rightarrow> direction \<Rightarrow> app" where
  "changeItemLayer p s ident dir =
     (case currentBoard s of
        None \<Rightarrow> s
      | Some b \<Rightarrow>
          (let its = items b;
               index = findIndex (\<lambda>i. item_id i = ident) its
           in if index = - 1 then s
              else (let item = its ! nat index;
                        rest = take (nat index) its @ drop (nat index + 1) its;
                        its' = (case dir of Front \<Rightarrow> rest @ [item] | Back \<Rightarrow> item # rest)
                    in saveAndBroadcastBoard p s (b\<lparr> items := its' \<rparr>))))"

subsection \<open>Interaction handlers\<close>

definition handlePointerDown :: "app \<Rightarrow> PointerEvent \<Rightarrow> string \<Rightarrow> app" where
  "handlePointerDown s e ident =
     (case currentBoard s of
        None \<Rightarrow> s
      | Some b \<Rightarrow>
          (case find (\<lambda>i. item_id i = ident) (items b) of
             None \<Rightarrow> s
           | Some item \<Rightarrow>
               s\<lparr> draggedItemId := Some ident,
                  interactionStart := \<lparr> pt_x = clientX e, pt_y = clientY e \<rparr>,
                  itemInitialState := Some item \<rparr>))"

definition defaultWidth :: "ItemType \<Rightarrow> real" where
  "defaultWidth t = (if t = TEXT then 250 else (if t = EMOJI then 100 else 200))"

definition defaultHeight :: "ItemType \<Rightarrow> real option" where
  "defaultHeight t =
     (if t = IMAGE \<or> t = STICKER \<or> t = EMOJI
      then Some (if t = EMOJI then 100 else 200)
      else None)"

definition handleResizeStart :: "app \<Rightarrow> PointerEvent \<Rightarrow> string \<Rightarrow> app" where
  "handleResizeStart s e ident =
     (case currentBoard s of
        None \<Rightarrow> s
      | Some b \<Rightarrow>
          (case find (\<lambda>i. item_id i = ident) (items b) of
             None \<Rightarrow> s
           | Some item \<Rightarrow>
               s\<lparr> resizingItemId := Some ident,
                  interactionStart := \<lparr> pt_x = clientX e, pt_y = clientY e \<rparr>,
                  itemInitialState := Some (item
                    \<lparr> item_width := Some (js_or_num (item_width item) (defaultWidth (item_type item))),
                      item_height := js_or (item_height item) (defaultHeight (item_type item)) \<rparr>) \<rparr>))"

text \<open>The two item updates of \<open>handlePointerMove\<close>, each a function of the snapshot and
  the pointer delta only.\<close>

definition drag_item ::
  "platform \<Rightarrow> CanvasItem \<Rightarrow> real \<Rightarrow> real \<Rightarrow> CanvasItem \<Rightarrow> CanvasItem" where
  "drag_item p init deltaX deltaY item =
     item\<lparr> item_x := num_add p (item_x init) deltaX,
           item_y := num_add p (item_y init) deltaY \<rparr>"

definition resize_item ::
  "platform \<Rightarrow> CanvasItem \<Rightarrow> real \<Rightarrow> real \<Rightarrow> CanvasItem \<Rightarrow> CanvasItem" where
  "resize_item p init deltaX deltaY item =
     item\<lparr> item_width := Some (max 50 (num_add p (js_or_num (item_width init) 0) deltaX)),
           item_height :=
             (case item_height init of
                None \<Rightarrow> None
              | Some h \<Rightarrow> if h \<noteq> 0 then Some (max 50 (num_add p h deltaY)) else None) \<rparr>"

definition handlePointerMove :: "platform \<Rightarrow> app \<Rightarrow> PointerEvent \<Rightarrow> app" where
  "handlePointerMove p s e =
     (case (currentBoard s, itemInitialState s) of
        (Some b, Some init) \<Rightarrow>
          (let deltaX = num_sub p (clientX e) (pt_x (interactionStart s));
               deltaY = num_sub p (clientY e) (pt_y (interactionStart s))
           in if truthy_str (draggedItemId s) then
                s\<lparr> currentBoard := Some (b\<lparr> items :=
                     map (\<lambda>item. if Some (item_id item) = draggedItemId s
                                  then drag_item p init deltaX deltaY item else item)
                         (items b) \<rparr>) \<rparr>
              else if truthy_str (resizingItemId s) then
                s\<lparr> currentBoard := Some (b\<lparr> items :=
                     map (\<lambda>item. if Some (item_id item) = resizingItemId s
                                  then resize_item p init deltaX deltaY item else item)
                         (items b) \<rparr>) \<rparr>
              else s)
      | _ \<Rightarrow> s)"

definition handlePointerUp :: "platform \<Rightarrow> app \<Rightarrow> app" where
  "handlePointerUp p s =
     (case currentBoard s of
        Some b \<Rightarrow>
          if truthy_str (draggedItemId s) \<or> truthy_str (resizingItemId s) then
            (saveAndBroadcastBoard p s b)
              \<lparr> draggedItemId := None, resizingItemId := None, itemInitialState := None \<rparr>
          else s
      | None \<Rightarrow> s)"

section \<open>The item component (DraggableItem.tsx)\<close>

text \<open>Permission check: the author of the item or the host of the board.\<close>

definition isAuthorized :: "User option \<Rightarrow> CanvasItem \<Rightarrow> string \<Rightarrow> bool" where
  "isAuthorized currentUser item hostName =
     (case currentUser of
        None \<Rightarrow> False
      | Some u \<Rightarrow> user_name u = author item \<or> user_name u = hostName)"

text \<open>The component's own \<open>handlePointerDown\<close> and \<open>handleResizePointerDown\<close>, named
  with a prefix since the application has a handler of the first name too. They pass the
  event on to the application's handler only for an authorized user.\<close>

definition item_handlePointerDown ::
  "User option \<Rightarrow> string \<Rightarrow> CanvasItem \<Rightarrow> app \<Rightarrow> PointerEvent \<Rightarrow> app" where
  "item_handlePointerDown currentUser hostName item s e =
     (if isAuthorized currentUser item hostName
      then handlePointerDown s e (item_id item) else s)"

definition item_handleResizePointerDown ::
  "User option \<Rightarrow> string \<Rightarrow> CanvasItem \<Rightarrow> app \<Rightarrow> PointerEvent \<Rightarrow> app" where
  "item_handleResizePointerDown currentUser hostName item s e =
     (if isAuthorized currentUser item hostName
      then handleResizeStart s e (item_id item) else s)"

text \<open>The layer buttons, the delete button and the resize handle are rendered only for
  an authorized user; for anyone else there is nothing to press.\<close>

definition item_layerPointerDown ::
  "User option \<Rightarrow> string \<Rightarrow> CanvasItem \<Rightarrow> platform \<Rightarrow> app \<Rightarrow> direction \<Rightarrow> app" where
  "item_layerPointerDown currentUser hostName item p s dir =
     (if isAuthorized currentUser item hostName
      then changeItemLayer p s (item_id item) dir else s)"

definition item_deletePointerDown ::
  "User option \<Rightarrow> string \<Rightarrow> CanvasItem \<Rightarrow> platform \<Rightarrow> app \<Rightarrow> app" where
  "item_deletePointerDown currentUser hostName item p s =
     (if isAuthorized currentUser item hostName
      then deleteItem p s (item_id item) else s)"

text \<open>
  The pointer events of the board view. One item component is rendered per element of
  the current board's items, with the logged-in user and the board's host as props; an
  event on an item, on its resize handle or on one of its buttons is identified by the
  item's position in that list. Move, up and leave are received by the canvas.
\<close>

datatype ui_event =
    ItemPointerDown nat PointerEvent
  | ResizePointerDown nat PointerEvent
  | LayerPointerDown nat direction
  | DeletePointerDown nat
  | CanvasPointerMove PointerEvent
  | CanvasPointerUp PointerEvent
  | CanvasPointerLeave PointerEvent

fun ui_step :: "platform \<Rightarrow> app \<Rightarrow> ui_event \<Rightarrow> app" where
  "ui_step p s (ItemPointerDown k e) =
     (case currentBoard s of
        None \<Rightarrow> s
      | Some b \<Rightarrow>
          if k < length (items b)
          then item_handlePointerDown (user s) (host b) (items b ! k) s e else s)"
| "ui_step p s (ResizePointerDown k e) =
     (case currentBoard s of
        None \<Rightarrow> s
      | Some b \<Rightarrow>
          if k < length (items b)
          then item_handleResizePointerDown (user s) (host b) (items b ! k) s e else s)"
| "ui_step p s (LayerPointerDown k dir) =
     (case currentBoard s of
        None \<Rightarrow> s
      | Some b \<Rightarrow>
          if k < length (items b)
          then item_layerPointerDown (user s) (host b) (items b ! k) p s dir else s)"
| "ui_step p s (DeletePointerDown k) =
     (case currentBoard s of
        None \<Rightarrow> s
      | Some b \<Rightarrow>
          if k < length (items b)
          then item_deletePointerDown (user s) (host b) (items b ! k) p s else s)"
| "ui_step p s (CanvasPointerMove e) = handlePointerMove p s e"
| "ui_step p s (CanvasPointerUp e) = handlePointerUp p s"
| "ui_step p s (CanvasPointerLeave e) = handlePointerUp p s"

section \<open>Sample data\<close>

text \<open>Concrete values at which the theorems below are instantiated.\<close>

abbreviation sample_platform :: platform where
  "sample_platform \<equiv>
     \<lparr> JSON_parse = (\<lambda>s. if s = ''42'' then Inr (JNum 42)
                          else if s = ''[]'' then Inr (JArr [])
                          else Inl SyntaxError),
       JSON_stringify = (\<lambda>bs. ''[]''),
       quota_exceeded = (\<lambda>v. False),
       num_add = (\<lambda>a b. a + b),
       num_sub = (\<lambda>a b. a - b) \<rparr>"

abbreviation emoji_item :: CanvasItem where
  "emoji_item \<equiv>
     \<lparr> item_id = ''e1'', item_type = EMOJI, content = '':)'', item_x = 10, item_y = 20,
       item_width = None, item_height = None, rotation = 0, author = ''ann'',
       color = None, textColor = None, item_createdAt = 1 \<rparr>"

abbreviation text_item :: CanvasItem where
  "text_item \<equiv>
     \<lparr> item_id = ''t1'', item_type = TEXT, content = ''hi'', item_x = 300, item_y = 40,
       item_width = Some 250, item_height = None, rotation = 0, author = ''bob'',
       color = None, textColor = None, item_createdAt = 2 \<rparr>"

abbreviation sample_board :: Board where
  "sample_board \<equiv>
     \<lparr> board_id = ''b1'', topic = ''plans'', items = [emoji_item, text_item],
       board_createdAt = 0, host = ''hana'', backgroundImage = None, backgroundSize = None \<rparr>"

abbreviation other_board :: Board where
  "other_board \<equiv>
     \<lparr> board_id = ''b2'', topic = ''notes'', items = [],
       board_createdAt = 5, host = ''bob'', backgroundImage = None, backgroundSize = None \<rparr>"

abbreviation sample_app :: app where
  "sample_app \<equiv>
     \<lparr> user = Some \<lparr> user_id = ''u1'', user_name = ''ann'' \<rparr>,
       currentBoard = Some sample_board, boards = [sample_board],
       draggedItemId = None, resizingItemId = None,
       interactionStart = \<lparr> pt_x = 0, pt_y = 0 \<rparr>, itemInitialState = None,
       storage = Map.empty, channel = Some [] \<rparr>"

abbreviation pointer_at :: "real \<Rightarrow> real \<Rightarrow> PointerEvent" where
  "pointer_at px py \<equiv> \<lparr> clientX = px, clientY = py \<rparr>"

abbreviation host_app :: app where
  "host_app \<equiv> sample_app\<lparr> user := Some \<lparr> user_id = ''u2'', user_name = ''hana'' \<rparr> \<rparr>"

section \<open>Notions used in the proofs\<close>

text \<open>
  \<open>guarded u h iid xs s\<close>: in state \<open>s\<close> the user is \<open>u\<close>, the current board has host
  \<open>h\<close>, its items with id \<open>iid\<close> are exactly \<open>xs\<close>, in this order, none of them is one
  that \<open>u\<close> is authorized for, and neither interaction id is \<open>iid\<close>.
\<close>

definition guarded :: "User option \<Rightarrow> string \<Rightarrow> string \<Rightarrow> CanvasItem list \<Rightarrow> app \<Rightarrow> bool" where
  "guarded u h iid xs s \<longleftrightarrow>
     user s = u \<and>
     (\<exists>b'. currentBoard s = Some b' \<and> host b' = h \<and>
           filter (\<lambda>i. item_id i = iid) (items b') = xs) \<and>
     (\<forall>a \<in> set xs. \<not> isAuthorized u a h) \<and>
     draggedItemId s \<noteq> Some iid \<and> resizingItemId s \<noteq> Some iid"

text \<open>
  \<open>sized init\<close>: the snapshot \<open>init\<close> has a width, which is not \<open>0\<close>, and its height is
  undefined or not \<open>0\<close>. \<open>resize_ready s\<close>: in state \<open>s\<close> no item of the current board has
  the empty id, neither interaction id is the empty string, and when no drag id is set,
  the snapshot, if there is one, is \<open>sized\<close>.
\<close>

definition sized :: "CanvasItem \<Rightarrow> bool" where
  "sized init \<longleftrightarrow> (\<exists>w. item_width init = Some w \<and> w \<noteq> 0) \<and> item_height init \<noteq> Some 0"

definition resize_ready :: "app \<Rightarrow> bool" where
  "resize_ready s \<longleftrightarrow>
     (\<forall>b. currentBoard s = Some b \<longrightarrow> (\<forall>i \<in> set (items b). item_id i \<noteq> [])) \<and>
     draggedItemId s \<noteq> Some [] \<and> resizingItemId s \<noteq> Some [] \<and>
     (draggedItemId s = None \<longrightarrow> (\<forall>init. itemInitialState s = Some init \<longrightarrow> sized init))"

section \<open>Properties of the JavaScript primitives\<close>

lemma findIndex_ge: "findIndex P xs \<ge> - 1"
  by (induction xs) (auto simp: Let_def)

lemma findIndex_neg_iff: "findIndex P xs < 0 \<longleftrightarrow> (\<forall>a \<in> set xs. \<not> P a)"
  by (induction xs) (auto simp: Let_def)

lemma findIndex_nonneg:
  "findIndex P xs \<ge> 0 \<Longrightarrow>
     nat (findIndex P xs) < length xs \<and> P (xs ! nat (findIndex P xs)) \<and>
     (\<forall>j < nat (findIndex P xs). \<not> P (xs ! j))"
proof (induction xs)
  case Nil
  then show ?case by simp
next
  case (Cons a as)
  show ?case
  proof (cases "P a")
    case True
    then show ?thesis by simp
  next
    case False
    with Cons.prems have r: "findIndex P as \<ge> 0"
      by (auto simp: Let_def split: if_splits)
    then have eq: "nat (findIndex P (a # as)) = Suc (nat (findIndex P as))"
      using False by (simp add: Let_def nat_add_distrib)
    from Cons.IH [OF r] show ?thesis
      unfolding eq using False by (auto simp: less_Suc_eq_0_disj)
  qed
qed

lemma find_findIndex:
  "find P xs = (if findIndex P xs \<ge> 0 then Some (xs ! nat (findIndex P xs)) else None)"
  by (induction xs) (auto simp: Let_def nat_add_distrib)


section \<open>The board store\<close>

lemma save_boards_Nil: "save_boards [] b = [b]"
  by (simp add: save_boards_def)

lemma save_boards_Cons:
  "save_boards (a # as) b =
     (if board_id a = board_id b then b # as else a # save_boards as b)"
  using findIndex_ge [of "\<lambda>c. board_id c = board_id b" as]
  by (auto simp: save_boards_def Let_def nat_add_distrib)

lemma receive_boards_eq: "receive_boards bs b = save_boards bs b"
  by (simp add: receive_boards_def save_boards_def)

lemma save_boards_unseen:
  "board_id b \<notin> board_id ` set bs \<Longrightarrow> save_boards bs b = bs @ [b]"
  by (induction bs) (auto simp: save_boards_Nil save_boards_Cons)

lemma save_boards_known:
  "board_id b \<in> board_id ` set bs \<Longrightarrow>
     \<exists>i < length bs. board_id (bs ! i) = board_id b \<and>
        (\<forall>j < i. board_id (bs ! j) \<noteq> board_id b) \<and> save_boards bs b = bs[i := b]"
proof (induction bs)
  case Nil
  then show ?case by simp
next
  case (Cons a as)
  show ?case
  proof (cases "board_id a = board_id b")
    case True
    then have "save_boards (a # as) b = (a # as)[0 := b]"
      by (simp add: save_boards_Cons)
    with True show ?thesis by (intro exI [of _ 0]) simp
  next
    case False
    with Cons.prems have "board_id b \<in> board_id ` set as" by auto
    from Cons.IH [OF this] obtain i where i: "i < length as"
      "board_id (as ! i) = board_id b" "\<forall>j < i. board_id (as ! j) \<noteq> board_id b"
      "save_boards as b = as[i := b]" by blast
    show ?thesis
    proof (intro exI [of _ "Suc i"] conjI allI impI)
      fix j assume "j < Suc i"
      then show "board_id ((a # as) ! j) \<noteq> board_id b"
        using i(3) False by (cases j) auto
    qed (use i False in \<open>simp_all add: save_boards_Cons\<close>)
  qed
qed

lemma map_board_id_save_boards:
  "map board_id (save_boards bs b) =
     (if board_id b \<in> board_id ` set bs then map board_id bs
      else map board_id bs @ [board_id b])"
  by (induction bs) (auto simp: save_boards_Nil save_boards_Cons)

lemma distinct_save_boards:
  "distinct (map board_id bs) \<Longrightarrow> distinct (map board_id (save_boards bs b))"
  by (simp add: map_board_id_save_boards)

lemma find_save_boards:
  "find (\<lambda>c. board_id c = bid) (save_boards bs b) =
     (if bid = board_id b then Some b else find (\<lambda>c. board_id c = bid) bs)"
  by (induction bs) (auto simp: save_boards_Nil save_boards_Cons)

lemma filter_save_boards:
  "distinct (map board_id bs) \<Longrightarrow>
   filter (\<lambda>c. board_id c = bid) (save_boards bs b) =
     (if bid = board_id b then [b] else filter (\<lambda>c. board_id c = bid) bs)"
proof (induction bs)
  case Nil
  then show ?case by (simp add: save_boards_Nil)
next
  case (Cons a as)
  have none: "board_id a = board_id b \<Longrightarrow> filter (\<lambda>c. board_id c = board_id b) as = []"
    using Cons.prems by (force simp: filter_empty_conv image_iff)
  from Cons show ?case
    by (auto simp: save_boards_Cons none)
qed


lemma boards_saveAndBroadcastBoard:
  "boards (saveAndBroadcastBoard p s b) = save_boards (boards s) b"
  by (simp add: saveAndBroadcastBoard_def Let_def)

lemma boards_foldl_save:
  "boards (foldl (saveAndBroadcastBoard p) s us) = foldl save_boards (boards s) us"
  by (induction us arbitrary: s) (simp_all add: boards_saveAndBroadcastBoard)

lemma distinct_foldl_save:
  "distinct (map board_id bs) \<Longrightarrow> distinct (map board_id (foldl save_boards bs us))"
  by (induction us arbitrary: bs) (simp_all add: distinct_save_boards)

lemma find_foldl_save:
  "find (\<lambda>c. board_id c = bid) (foldl save_boards bs us) =
     (case find (\<lambda>c. board_id c = bid) (rev us) of
        Some v \<Rightarrow> Some v
      | None \<Rightarrow> find (\<lambda>c. board_id c = bid) bs)"
  by (induction us rule: rev_induct) (auto simp: find_save_boards)

lemma filter_foldl_save:
  assumes "distinct (map board_id bs)"
    and "find (\<lambda>c. board_id c = bid) (rev us) = Some v"
  shows "filter (\<lambda>c. board_id c = bid) (foldl save_boards bs us) = [v]"
  using assms(2)
proof (induction us rule: rev_induct)
  case Nil
  then show ?case by simp
next
  case (snoc u us)
  have d: "distinct (map board_id (foldl save_boards bs us))"
    by (rule distinct_foldl_save [OF assms(1)])
  from snoc show ?case
    by (auto simp: filter_save_boards [OF d] split: if_splits)
qed

text \<open>
  Claim C1. \<open>saveAndBroadcastBoard\<close> is the store's upsert. Starting from a board list
  with one entry per id (the empty list in particular), after any sequence \<open>us\<close> of
  upserts the list still has one entry per id, and for every id upserted the only entry
  with that id is the last board of \<open>us\<close> carrying it. One upsert appends the board when
  its id is not in the list, and otherwise overwrites the entry at the first position \<open>i\<close>
  holding the id (\<open>xs[i := b]\<close> keeps the length and every other entry in its place).
\<close>

theorem upsertBoard_one_entry_per_id:
  "(distinct (map board_id (boards s)) \<longrightarrow>
      distinct (map board_id (boards (foldl (saveAndBroadcastBoard p) s us))) \<and>
      (find (\<lambda>c. board_id c = bid) (rev us) = Some v \<longrightarrow>
         filter (\<lambda>c. board_id c = bid) (boards (foldl (saveAndBroadcastBoard p) s us)) = [v])) \<and>
   (board_id b \<notin> board_id ` set (boards t) \<longrightarrow>
      boards (saveAndBroadcastBoard p t b) = boards t @ [b]) \<and>
   (board_id b \<in> board_id ` set (boards t) \<longrightarrow>
      (\<exists>i < length (boards t). board_id (boards t ! i) = board_id b \<and>
         (\<forall>j < i. board_id (boards t ! j) \<noteq> board_id b) \<and>
         boards (saveAndBroadcastBoard p t b) = (boards t)[i := b]))"
proof (intro conjI impI)
  assume d: "distinct (map board_id (boards s))"
  show "distinct (map board_id (boards (foldl (saveAndBroadcastBoard p) s us)))"
    by (simp add: boards_foldl_save distinct_foldl_save [OF d])
  assume "find (\<lambda>c. board_id c = bid) (rev us) = Some v"
  then show "filter (\<lambda>c. board_id c = bid) (boards (foldl (saveAndBroadcastBoard p) s us)) = [v]"
    by (simp add: boards_foldl_save filter_foldl_save [OF d])
next
  assume "board_id b \<notin> board_id ` set (boards t)"
  then show "boards (saveAndBroadcastBoard p t b) = boards t @ [b]"
    by (simp add: boards_saveAndBroadcastBoard save_boards_unseen)
next
  assume "board_id b \<in> board_id ` set (boards t)"
  from save_boards_known [OF this]
  show "\<exists>i < length (boards t). board_id (boards t ! i) = board_id b \<and>
         (\<forall>j < i. board_id (boards t ! j) \<noteq> board_id b) \<and>
         boards (saveAndBroadcastBoard p t b) = (boards t)[i := b]"
    by (auto simp: boards_saveAndBroadcastBoard)
qed


theorem upsertBoard_one_entry_per_id_witness:
  "distinct (map board_id (boards sample_app)) \<and>
   find (\<lambda>c. board_id c = ''b1'')
     (rev [other_board, sample_board\<lparr> topic := ''v2'' \<rparr>, sample_board\<lparr> topic := ''v3'' \<rparr>])
     = Some (sample_board\<lparr> topic := ''v3'' \<rparr>) \<and>
   boards (foldl (saveAndBroadcastBoard sample_platform) sample_app
     [other_board, sample_board\<lparr> topic := ''v2'' \<rparr>, sample_board\<lparr> topic := ''v3'' \<rparr>])
     = [sample_board\<lparr> topic := ''v3'' \<rparr>, other_board] \<and>
   filter (\<lambda>c. board_id c = ''b1'')
     (boards (foldl (saveAndBroadcastBoard sample_platform) sample_app
        [other_board, sample_board\<lparr> topic := ''v2'' \<rparr>, sample_board\<lparr> topic := ''v3'' \<rparr>]))
     = [sample_board\<lparr> topic := ''v3'' \<rparr>] \<and>
   board_id other_board \<notin> board_id ` set (boards sample_app) \<and>
   boards (saveAndBroadcastBoard sample_platform sample_app other_board)
     = [sample_board, other_board] \<and>
   board_id (sample_board\<lparr> topic := ''v2'' \<rparr>) \<in> board_id ` set (boards sample_app) \<and>
   boards (saveAndBroadcastBoard sample_platform sample_app (sample_board\<lparr> topic := ''v2'' \<rparr>))
     = [sample_board\<lparr> topic := ''v2'' \<rparr>]"
  using upsertBoard_one_entry_per_id
    [of sample_app sample_platform
        "[other_board, sample_board\<lparr> topic := ''v2'' \<rparr>, sample_board\<lparr> topic := ''v3'' \<rparr>]"
        "''b1''" "sample_board\<lparr> topic := ''v3'' \<rparr>" other_board sample_app]
    upsertBoard_one_entry_per_id
    [of sample_app sample_platform "[]" "''b1''" sample_board
        "sample_board\<lparr> topic := ''v2'' \<rparr>" sample_app]
  by (simp add: saveAndBroadcastBoard_def save_boards_def Let_def)


lemma boards_onmessage:
  "boards (onmessage p s ev) =
     (if msg_type ev = ''UPDATE_BOARD'' then save_boards (boards s) (payload ev) else boards s)"
  by (simp add: onmessage_def Let_def receive_boards_eq)

lemma boards_foldl_onmessage:
  "boards (foldl (onmessage p) s evs) =
     foldl save_boards (boards s)
       (map payload (filter (\<lambda>ev. msg_type ev = ''UPDATE_BOARD'') evs))"
  by (induction evs arbitrary: s) (simp_all add: boards_onmessage)

text \<open>
  Claim C4. The \<open>onmessage\<close> handler of the sync channel applies an \<open>UPDATE_BOARD\<close>
  message to the board list by id alone: when the list has a board with the payload's id,
  the entry at the first position holding it is overwritten by the payload, otherwise the payload is
  appended; nothing of the stored board or of the payload is compared. Hence after any
  sequence of messages, looking an id up in the list yields the payload of the last
  \<open>UPDATE_BOARD\<close> message received for that id.
\<close>

theorem onmessage_last_received_wins:
  "(msg_type ev = ''UPDATE_BOARD'' \<longrightarrow>
      (board_id (payload ev) \<in> board_id ` set (boards t) \<longrightarrow>
         (\<exists>i < length (boards t). board_id (boards t ! i) = board_id (payload ev) \<and>
            (\<forall>j < i. board_id (boards t ! j) \<noteq> board_id (payload ev)) \<and>
            boards (onmessage p t ev) = (boards t)[i := payload ev])) \<and>
      (board_id (payload ev) \<notin> board_id ` set (boards t) \<longrightarrow>
         boards (onmessage p t ev) = boards t @ [payload ev])) \<and>
   (find (\<lambda>c. board_id c = bid)
        (rev (map payload (filter (\<lambda>ev. msg_type ev = ''UPDATE_BOARD'') evs))) = Some v \<longrightarrow>
      find (\<lambda>c. board_id c = bid) (boards (foldl (onmessage p) s evs)) = Some v)"
proof (intro conjI impI)
  assume ty: "msg_type ev = ''UPDATE_BOARD''"
  {
    assume "board_id (payload ev) \<in> board_id ` set (boards t)"
    from save_boards_known [OF this] ty
    show "\<exists>i < length (boards t). board_id (boards t ! i) = board_id (payload ev) \<and>
            (\<forall>j < i. board_id (boards t ! j) \<noteq> board_id (payload ev)) \<and>
            boards (onmessage p t ev) = (boards t)[i := payload ev]"
      by (auto simp: boards_onmessage)
  next
    assume "board_id (payload ev) \<notin> board_id ` set (boards t)"
    with ty show "boards (onmessage p t ev) = boards t @ [payload ev]"
      by (simp add: boards_onmessage save_boards_unseen)
  }
next
  assume "find (\<lambda>c. board_id c = bid)
        (rev (map payload (filter (\<lambda>ev. msg_type ev = ''UPDATE_BOARD'') evs))) = Some v"
  then show "find (\<lambda>c. board_id c = bid) (boards (foldl (onmessage p) s evs)) = Some v"
    by (simp add: boards_foldl_onmessage find_foldl_save)
qed

theorem onmessage_last_received_wins_witness:
  "msg_type \<lparr> msg_type = ''UPDATE_BOARD'', payload = sample_board\<lparr> topic := ''v2'' \<rparr> \<rparr>
     = ''UPDATE_BOARD'' \<and>
   board_id (sample_board\<lparr> topic := ''v2'' \<rparr>) \<in> board_id ` set (boards sample_app) \<and>
   boards (onmessage sample_platform sample_app
     \<lparr> msg_type = ''UPDATE_BOARD'', payload = sample_board\<lparr> topic := ''v2'' \<rparr> \<rparr>)
     = [sample_board\<lparr> topic := ''v2'' \<rparr>] \<and>
   board_id other_board \<notin> board_id ` set (boards sample_app) \<and>
   boards (onmessage sample_platform sample_app
     \<lparr> msg_type = ''UPDATE_BOARD'', payload = other_board \<rparr>)
     = [sample_board, other_board] \<and>
   find (\<lambda>c. board_id c = ''b1'')
     (boards (foldl (onmessage sample_platform) sample_app
        [\<lparr> msg_type = ''UPDATE_BOARD'', payload = sample_board\<lparr> topic := ''v3'' \<rparr> \<rparr>,
         \<lparr> msg_type = ''UPDATE_BOARD'', payload = other_board \<rparr>,
         \<lparr> msg_type = ''UPDATE_BOARD'', payload = sample_board\<lparr> topic := ''v2'' \<rparr> \<rparr>]))
     = Some (sample_board\<lparr> topic := ''v2'' \<rparr>)"
  using onmessage_last_received_wins
    [of "\<lparr> msg_type = ''UPDATE_BOARD'', payload = sample_board\<lparr> topic := ''v2'' \<rparr> \<rparr>"
        sample_app sample_platform "''b1''"
        "[\<lparr> msg_type = ''UPDATE_BOARD'', payload = sample_board\<lparr> topic := ''v3'' \<rparr> \<rparr>,
          \<lparr> msg_type = ''UPDATE_BOARD'', payload = other_board \<rparr>,
          \<lparr> msg_type = ''UPDATE_BOARD'', payload = sample_board\<lparr> topic := ''v2'' \<rparr> \<rparr>]"
        "sample_board\<lparr> topic := ''v2'' \<rparr>" sample_app]
    onmessage_last_received_wins
    [of "\<lparr> msg_type = ''UPDATE_BOARD'', payload = other_board \<rparr>"
        sample_app sample_platform "''b1''" "[]" sample_board sample_app]
  by (simp add: onmessage_def receive_boards_def Let_def)

section \<open>Layer order\<close>

lemma findIndex_minus1_iff: "findIndex P xs = - 1 \<longleftrightarrow> (\<forall>a \<in> set xs. \<not> P a)"
  using findIndex_ge [of P xs] findIndex_neg_iff [of P xs] by auto

lemma remove_nth_mset: "i < length xs \<Longrightarrow> mset (take i xs @ drop (Suc i) xs) + {#xs ! i#} = mset xs"
proof -
  assume "i < length xs"
  then have "xs = take i xs @ xs ! i # drop (Suc i) xs"
    by (simp add: id_take_nth_drop)
  then have "mset xs = mset (take i xs @ xs ! i # drop (Suc i) xs)" by simp
  then show ?thesis by simp
qed

lemma changeItemLayer_absent:
  "currentBoard s = Some b \<Longrightarrow> ident \<notin> item_id ` set (items b) \<Longrightarrow>
     changeItemLayer p s ident dir = s"
  using findIndex_minus1_iff [of "\<lambda>i. item_id i = ident" "items b"]
  by (auto simp: changeItemLayer_def Let_def)

lemma changeItemLayer_present:
  assumes "currentBoard s = Some b" and "ident \<in> item_id ` set (items b)"
  shows "\<exists>i < length (items b). item_id (items b ! i) = ident \<and>
           (\<forall>j < i. item_id (items b ! j) \<noteq> ident) \<and>
           changeItemLayer p s ident dir =
             saveAndBroadcastBoard p s (b\<lparr> items :=
               (case dir of
                  Front \<Rightarrow> take i (items b) @ drop (Suc i) (items b) @ [items b ! i]
                | Back \<Rightarrow> items b ! i # take i (items b) @ drop (Suc i) (items b)) \<rparr>)"
proof -
  let ?P = "\<lambda>i. item_id i = ident"
  let ?n = "findIndex ?P (items b)"
  from assms(2) have "?n \<noteq> - 1" by (auto simp: findIndex_minus1_iff)
  with findIndex_ge [of ?P "items b"] have ge: "?n \<ge> 0" by linarith
  from findIndex_nonneg [OF ge] have
    "nat ?n < length (items b)" "item_id (items b ! nat ?n) = ident"
    "\<forall>j < nat ?n. item_id (items b ! j) \<noteq> ident" by auto
  moreover have "changeItemLayer p s ident dir =
      saveAndBroadcastBoard p s (b\<lparr> items :=
        (case dir of
           Front \<Rightarrow> take (nat ?n) (items b) @ drop (Suc (nat ?n)) (items b) @ [items b ! nat ?n]
         | Back \<Rightarrow> items b ! nat ?n # take (nat ?n) (items b) @ drop (Suc (nat ?n)) (items b)) \<rparr>)"
    using assms(1) \<open>?n \<noteq> - 1\<close>
    by (simp add: changeItemLayer_def Let_def split: direction.splits)
  ultimately show ?thesis by blast
qed

lemma currentBoard_saveAndBroadcastBoard:
  "currentBoard (saveAndBroadcastBoard p s b) = Some b"
  by (simp add: saveAndBroadcastBoard_def Let_def)

text \<open>
  Claim C6. For an id carried by an item of the current board, \<open>changeItemLayer\<close> with
  \<open>Front\<close> puts the (first) item with that id last and with \<open>Back\<close> puts it first; the
  remaining items are the old sequence with that one position removed, so their relative
  order is kept. In every case the new sequence has the length and the members (as a
  multiset) of the old one. For an id carried by no item, the call changes nothing.
\<close>

theorem changeItemLayer_front_back:
  "currentBoard s = Some b \<Longrightarrow>
   (ident \<in> item_id ` set (items b) \<longrightarrow>
      (\<exists>i < length (items b).
         item_id (items b ! i) = ident \<and>
         (\<forall>j < i. item_id (items b ! j) \<noteq> ident) \<and>
         map_option items (currentBoard (changeItemLayer p s ident Front)) =
           Some (take i (items b) @ drop (Suc i) (items b) @ [items b ! i]) \<and>
         map_option items (currentBoard (changeItemLayer p s ident Back)) =
           Some (items b ! i # take i (items b) @ drop (Suc i) (items b)))) \<and>
   (\<exists>its'. map_option items (currentBoard (changeItemLayer p s ident dir)) = Some its' \<and>
       length its' = length (items b) \<and> mset its' = mset (items b)) \<and>
   (ident \<notin> item_id ` set (items b) \<longrightarrow> changeItemLayer p s ident dir = s)"
proof (intro conjI impI)
  assume cb: "currentBoard s = Some b"
  {
    assume pres: "ident \<in> item_id ` set (items b)"
    from changeItemLayer_present [OF cb pres, of p Front] obtain i where
      i: "i < length (items b)" "item_id (items b ! i) = ident"
         "\<forall>j < i. item_id (items b ! j) \<noteq> ident"
      and fr: "changeItemLayer p s ident Front = saveAndBroadcastBoard p s
          (b\<lparr> items := take i (items b) @ drop (Suc i) (items b) @ [items b ! i] \<rparr>)"
      by auto
    from changeItemLayer_present [OF cb pres, of p Back] obtain i' where
      i': "i' < length (items b)" "item_id (items b ! i') = ident"
         "\<forall>j < i'. item_id (items b ! j) \<noteq> ident"
      and bk: "changeItemLayer p s ident Back = saveAndBroadcastBoard p s
          (b\<lparr> items := items b ! i' # take i' (items b) @ drop (Suc i') (items b) \<rparr>)"
      by auto
    have "i' = i" using i i' by (metis linorder_neqE_nat)
    with i fr bk
    show "\<exists>i < length (items b).
         item_id (items b ! i) = ident \<and>
         (\<forall>j < i. item_id (items b ! j) \<noteq> ident) \<and>
         map_option items (currentBoard (changeItemLayer p s ident Front)) =
           Some (take i (items b) @ drop (Suc i) (items b) @ [items b ! i]) \<and>
         map_option items (currentBoard (changeItemLayer p s ident Back)) =
           Some (items b ! i # take i (items b) @ drop (Suc i) (items b))"
      by (intro exI [of _ i]) (simp add: currentBoard_saveAndBroadcastBoard)
  }
  show "\<exists>its'. map_option items (currentBoard (changeItemLayer p s ident dir)) = Some its' \<and>
       length its' = length (items b) \<and> mset its' = mset (items b)"
  proof (cases "ident \<in> item_id ` set (items b)")
    case False
    with cb show ?thesis by (simp add: changeItemLayer_absent)
  next
    case True
    from changeItemLayer_present [OF cb True, of p dir] obtain i where
      i: "i < length (items b)"
      and eq: "changeItemLayer p s ident dir = saveAndBroadcastBoard p s (b\<lparr> items :=
               (case dir of
                  Front \<Rightarrow> take i (items b) @ drop (Suc i) (items b) @ [items b ! i]
                | Back \<Rightarrow> items b ! i # take i (items b) @ drop (Suc i) (items b)) \<rparr>)"
      by auto
    from remove_nth_mset [OF i] i eq show ?thesis
      by (cases dir) (simp_all add: currentBoard_saveAndBroadcastBoard)
  qed
  show "ident \<notin> item_id ` set (items b) \<Longrightarrow> changeItemLayer p s ident dir = s"
    using cb by (rule changeItemLayer_absent)
qed

theorem changeItemLayer_front_back_witness:
  "currentBoard sample_app = Some sample_board \<and>
   ''e1'' \<in> item_id ` set (items sample_board) \<and>
   map_option items (currentBoard (changeItemLayer sample_platform sample_app ''e1'' Front))
     = Some [text_item, emoji_item] \<and>
   map_option items (currentBoard (changeItemLayer sample_platform sample_app ''t1'' Back))
     = Some [text_item, emoji_item] \<and>
   ''zz'' \<notin> item_id ` set (items sample_board) \<and>
   changeItemLayer sample_platform sample_app ''zz'' Front = sample_app"
  using changeItemLayer_front_back [of sample_app sample_board "''e1''" sample_platform Front]
    changeItemLayer_front_back [of sample_app sample_board "''zz''" sample_platform Front]
  by (simp add: changeItemLayer_def saveAndBroadcastBoard_def Let_def)

section \<open>Dragging\<close>

lemma find_map_same:
  "(\<And>a. P (f a) = P a) \<Longrightarrow> find P (map f xs) = map_option f (find P xs)"
  by (induction xs) auto

lemma handlePointerMove_dragging:
  assumes "currentBoard s = Some b" "itemInitialState s = Some init"
    and "draggedItemId s = Some ident" "ident \<noteq> []"
  shows "handlePointerMove p s e =
     s\<lparr> currentBoard := Some (b\<lparr> items :=
          map (\<lambda>item. if item_id item = ident
                 then drag_item p init (num_sub p (clientX e) (pt_x (interactionStart s)))
                        (num_sub p (clientY e) (pt_y (interactionStart s))) item
                 else item) (items b) \<rparr>) \<rparr>"
  using assms by (simp add: handlePointerMove_def Let_def truthy_str_def)

lemma drag_item_id [simp]: "item_id (drag_item p init dx dy item) = item_id item"
  by (simp add: drag_item_def)

lemma resize_item_id [simp]: "item_id (resize_item p init dx dy item) = item_id item"
  by (simp add: resize_item_def)

lemma drag_item_author [simp]: "author (drag_item p init dx dy item) = author item"
  by (simp add: drag_item_def)

lemma resize_item_author [simp]: "author (resize_item p init dx dy item) = author item"
  by (simp add: resize_item_def)

lemma drag_item_twice [simp]:
  "drag_item p init dx dy (drag_item p init' dx' dy' item) = drag_item p init dx dy item"
  by (simp add: drag_item_def)

lemma handlePointerMove_twice:
  assumes "currentBoard s = Some b" "itemInitialState s = Some init"
    and "draggedItemId s = Some ident" "ident \<noteq> []"
  shows "handlePointerMove p (handlePointerMove p s m) e = handlePointerMove p s e"
proof -
  let ?g = "\<lambda>e item. if item_id item = ident
                 then drag_item p init (num_sub p (clientX e) (pt_x (interactionStart s)))
                        (num_sub p (clientY e) (pt_y (interactionStart s))) item
                 else item"
  let ?b1 = "b\<lparr> items := map (?g m) (items b) \<rparr>"
  let ?s1 = "s\<lparr> currentBoard := Some ?b1 \<rparr>"
  have first: "handlePointerMove p s m = ?s1"
    by (rule handlePointerMove_dragging [OF assms])
  have "handlePointerMove p ?s1 e =
        ?s1\<lparr> currentBoard := Some (?b1\<lparr> items := map (?g e) (items ?b1) \<rparr>) \<rparr>"
    using assms
    by (subst handlePointerMove_dragging [where b = ?b1 and init = init and ident = ident])
       simp_all
  moreover have "map (?g e) (map (?g m) (items b)) = map (?g e) (items b)"
    by simp
  ultimately have "handlePointerMove p ?s1 e = s\<lparr> currentBoard := Some (b\<lparr> items := map (?g e) (items b) \<rparr>) \<rparr>"
    by simp
  then show ?thesis
    by (simp add: first handlePointerMove_dragging [OF assms])
qed

lemma handlePointerMove_keeps:
  assumes "currentBoard s = Some b" "itemInitialState s = Some init"
    and "draggedItemId s = Some ident" "ident \<noteq> []"
  shows "\<exists>b'. currentBoard (handlePointerMove p s m) = Some b'"
    and "itemInitialState (handlePointerMove p s m) = Some init"
    and "draggedItemId (handlePointerMove p s m) = Some ident"
    and "interactionStart (handlePointerMove p s m) = interactionStart s"
  using assms by (simp_all add: handlePointerMove_dragging [OF assms])

lemma foldl_moves_last:
  assumes "currentBoard s = Some b" "itemInitialState s = Some init"
    and "draggedItemId s = Some ident" "ident \<noteq> []"
  shows "foldl (handlePointerMove p) s (ms @ [e]) = handlePointerMove p s e"
  using assms(1,2,3)
proof (induction ms arbitrary: s b)
  case Nil
  then show ?case by simp
next
  case (Cons m ms)
  from handlePointerMove_keeps [OF Cons.prems assms(4), where m = m and p = p]
  obtain b' where k: "currentBoard (handlePointerMove p s m) = Some b'"
    "itemInitialState (handlePointerMove p s m) = Some init"
    "draggedItemId (handlePointerMove p s m) = Some ident" by blast
  have "foldl (handlePointerMove p) s ((m # ms) @ [e]) =
        foldl (handlePointerMove p) (handlePointerMove p s m) (ms @ [e])" by simp
  also have "\<dots> = handlePointerMove p (handlePointerMove p s m) e"
    by (rule Cons.IH [OF k])
  also have "\<dots> = handlePointerMove p s e"
    by (rule handlePointerMove_twice [OF Cons.prems assms(4)])
  finally show ?case .
qed


lemma handlePointerDown_found:
  assumes "currentBoard s = Some b" "find (\<lambda>i. item_id i = ident) (items b) = Some it"
  shows "handlePointerDown s e ident =
     s\<lparr> draggedItemId := Some ident,
        interactionStart := \<lparr> pt_x = clientX e, pt_y = clientY e \<rparr>,
        itemInitialState := Some it \<rparr>"
  using assms by (simp add: handlePointerDown_def)

lemma find_save_boards_same:
  "find (\<lambda>c. board_id c = board_id b) (save_boards bs b) = Some b"
  by (simp add: find_save_boards)

text \<open>
  Claim C2. A drag of the item \<open>it\<close> (found on the current board under a non-empty id, ids
  being UUIDs) starts with a pointer-down at \<open>e0\<close>, goes through any move events
  \<open>ms\<close>, a last move at \<open>e\<close>, and a release. Let \<open>dx\<close> be what \<open>clientX e - clientX e0\<close>
  evaluates to and \<open>dy\<close> what \<open>clientY e - clientY e0\<close> evaluates to, and let \<open>(x0, y0)\<close>
  be the item's position at the pointer-down. The board committed by the release, both as
  the current board and in the board list, holds the item at what \<open>x0 + dx\<close> and
  \<open>y0 + dy\<close> evaluate to: one addition to the snapshot, whatever the rounding of the
  platform and whatever the intermediate moves were. The interaction slot is cleared, and
  the whole resulting state is the one reached with the single move \<open>e\<close>.
\<close>

theorem drag_release_position:
  assumes cb: "currentBoard s = Some b"
    and f: "find (\<lambda>i. item_id i = ident) (items b) = Some it"
    and ne: "ident \<noteq> []"
  shows "\<exists>b'. currentBoard
            (handlePointerUp p (foldl (handlePointerMove p) (handlePointerDown s e0 ident) (ms @ [e])))
            = Some b' \<and>
          find (\<lambda>i. item_id i = ident) (items b') =
            Some (it\<lparr> item_x := num_add p (item_x it) (num_sub p (clientX e) (clientX e0)),
                      item_y := num_add p (item_y it) (num_sub p (clientY e) (clientY e0)) \<rparr>) \<and>
          find (\<lambda>c. board_id c = board_id b)
            (boards (handlePointerUp p
               (foldl (handlePointerMove p) (handlePointerDown s e0 ident) (ms @ [e])))) = Some b' \<and>
          draggedItemId
            (handlePointerUp p (foldl (handlePointerMove p) (handlePointerDown s e0 ident) (ms @ [e])))
            = None \<and>
          resizingItemId
            (handlePointerUp p (foldl (handlePointerMove p) (handlePointerDown s e0 ident) (ms @ [e])))
            = None \<and>
          itemInitialState
            (handlePointerUp p (foldl (handlePointerMove p) (handlePointerDown s e0 ident) (ms @ [e])))
            = None \<and>
          handlePointerUp p (foldl (handlePointerMove p) (handlePointerDown s e0 ident) (ms @ [e])) =
            handlePointerUp p (handlePointerMove p (handlePointerDown s e0 ident) e)"
proof -
  let ?s1 = "handlePointerDown s e0 ident"
  let ?g = "\<lambda>item. if item_id item = ident
                 then drag_item p it (num_sub p (clientX e) (clientX e0)) (num_sub p (clientY e) (clientY e0)) item
                 else item"
  let ?b' = "b\<lparr> items := map ?g (items b) \<rparr>"
  have s1: "?s1 = s\<lparr> draggedItemId := Some ident,
        interactionStart := \<lparr> pt_x = clientX e0, pt_y = clientY e0 \<rparr>,
        itemInitialState := Some it \<rparr>"
    by (rule handlePointerDown_found [OF cb f])
  have c1: "currentBoard ?s1 = Some b" "itemInitialState ?s1 = Some it"
    "draggedItemId ?s1 = Some ident" "interactionStart ?s1 = \<lparr> pt_x = clientX e0, pt_y = clientY e0 \<rparr>"
    by (simp_all add: s1 cb)
  have fold: "foldl (handlePointerMove p) ?s1 (ms @ [e]) = handlePointerMove p ?s1 e"
    by (rule foldl_moves_last [OF c1(1,2,3) ne])
  have mv: "handlePointerMove p ?s1 e = ?s1\<lparr> currentBoard := Some ?b' \<rparr>"
    by (simp add: handlePointerMove_dragging [OF c1(1,2,3) ne] c1(4))
  have up: "handlePointerUp p (?s1\<lparr> currentBoard := Some ?b' \<rparr>) =
      (saveAndBroadcastBoard p (?s1\<lparr> currentBoard := Some ?b' \<rparr>) ?b')
         \<lparr> draggedItemId := None, resizingItemId := None, itemInitialState := None \<rparr>"
    using ne by (simp add: handlePointerUp_def c1 truthy_str_def)
  have cur: "currentBoard (handlePointerUp p (handlePointerMove p ?s1 e)) = Some ?b'"
    by (simp add: mv up currentBoard_saveAndBroadcastBoard)
  have bds: "find (\<lambda>c. board_id c = board_id b)
      (boards (handlePointerUp p (handlePointerMove p ?s1 e))) = Some ?b'"
    using find_save_boards_same [of ?b']
    by (simp add: mv up boards_saveAndBroadcastBoard)
  have fnd: "find (\<lambda>i. item_id i = ident) (items ?b') =
      Some (it\<lparr> item_x := num_add p (item_x it) (num_sub p (clientX e) (clientX e0)),
                item_y := num_add p (item_y it) (num_sub p (clientY e) (clientY e0)) \<rparr>)"
  proof -
    have "find (\<lambda>i. item_id i = ident) (map ?g (items b)) =
          map_option ?g (find (\<lambda>i. item_id i = ident) (items b))"
      by (rule find_map_same) simp
    moreover have "item_id it = ident"
      using f by (auto simp: find_Some_iff)
    ultimately show ?thesis by (simp add: f drag_item_def)
  qed
  have idle: "draggedItemId (handlePointerUp p (handlePointerMove p ?s1 e)) = None"
    "resizingItemId (handlePointerUp p (handlePointerMove p ?s1 e)) = None"
    "itemInitialState (handlePointerUp p (handlePointerMove p ?s1 e)) = None"
    by (simp_all add: mv up)
  show ?thesis
    unfolding fold using cur bds fnd idle by blast
qed

theorem drag_release_position_witness:
  "currentBoard sample_app = Some sample_board \<and>
   find (\<lambda>i. item_id i = ''e1'') (items sample_board) = Some emoji_item \<and>
   ''e1'' \<noteq> [] \<and>
   num_add sample_platform (item_x emoji_item) (num_sub sample_platform 25 5) = 30 \<and>
   num_add sample_platform (item_y emoji_item) (num_sub sample_platform 45 5) = 60 \<and>
   currentBoard
     (handlePointerUp sample_platform
        (foldl (handlePointerMove sample_platform)
           (handlePointerDown sample_app (pointer_at 5 5) ''e1'')
           ([pointer_at 9 9, pointer_at 50 1] @ [pointer_at 25 45])))
     = Some (sample_board\<lparr> items := [emoji_item\<lparr> item_x := 30, item_y := 60 \<rparr>, text_item] \<rparr>)"
  using drag_release_position
    [where s = sample_app and b = sample_board and ident = "''e1''" and it = emoji_item
       and p = sample_platform and ?e0.0 = "pointer_at 5 5"
       and ms = "[pointer_at 9 9, pointer_at 50 1]" and e = "pointer_at 25 45"]
  by (simp add: handlePointerDown_def handlePointerMove_def handlePointerUp_def
        saveAndBroadcastBoard_def save_boards_def drag_item_def truthy_str_def Let_def)

section \<open>Resizing\<close>

lemma handlePointerMove_resizing:
  assumes "currentBoard s = Some b" "itemInitialState s = Some init"
    and "\<not> truthy_str (draggedItemId s)" "resizingItemId s = Some rid" "rid \<noteq> []"
  shows "handlePointerMove p s e =
     s\<lparr> currentBoard := Some (b\<lparr> items :=
          map (\<lambda>item. if item_id item = rid
                 then resize_item p init (num_sub p (clientX e) (pt_x (interactionStart s)))
                        (num_sub p (clientY e) (pt_y (interactionStart s))) item
                 else item) (items b) \<rparr>) \<rparr>"
  using assms by (simp add: handlePointerMove_def Let_def truthy_str_def)

lemma handleResizeStart_found:
  assumes "currentBoard s = Some b" "find (\<lambda>i. item_id i = ident) (items b) = Some it"
  shows "handleResizeStart s e ident =
     s\<lparr> resizingItemId := Some ident,
        interactionStart := \<lparr> pt_x = clientX e, pt_y = clientY e \<rparr>,
        itemInitialState := Some (it
          \<lparr> item_width := Some (js_or_num (item_width it) (defaultWidth (item_type it))),
            item_height := js_or (item_height it) (defaultHeight (item_type it)) \<rparr>) \<rparr>"
  using assms by (simp add: handleResizeStart_def)

lemma defaultWidth_cases:
  "defaultWidth t = (case t of TEXT \<Rightarrow> 250 | EMOJI \<Rightarrow> 100 | IMAGE \<Rightarrow> 200 | STICKER \<Rightarrow> 200)"
  by (cases t) (simp_all add: defaultWidth_def)

lemma defaultHeight_cases:
  "defaultHeight t =
     (case t of TEXT \<Rightarrow> None | EMOJI \<Rightarrow> Some 100 | IMAGE \<Rightarrow> Some 200 | STICKER \<Rightarrow> Some 200)"
  by (cases t) (simp_all add: defaultHeight_def)

subsection \<open>The snapshot of a resize is never zero-sized\<close>

lemma sized_resize_snapshot:
  "sized (it\<lparr> item_width := Some (js_or_num (item_width it) (defaultWidth (item_type it))),
              item_height := js_or (item_height it) (defaultHeight (item_type it)) \<rparr>)"
  by (cases "item_type it")
     (auto simp: sized_def js_or_num_def js_or_def truthy_num_def defaultWidth_def
        defaultHeight_def split: option.splits)

lemma resize_ready_handlePointerDown:
  "resize_ready s \<Longrightarrow> ident \<noteq> [] \<Longrightarrow> resize_ready (handlePointerDown s e ident)"
  by (auto simp: resize_ready_def handlePointerDown_def split: option.splits)

lemma resize_ready_handleResizeStart:
  "resize_ready s \<Longrightarrow> ident \<noteq> [] \<Longrightarrow> resize_ready (handleResizeStart s e ident)"
  using sized_resize_snapshot
  by (auto simp: resize_ready_def handleResizeStart_def split: option.splits)

lemma resize_ready_handlePointerMove:
  "resize_ready s \<Longrightarrow> resize_ready (handlePointerMove p s e)"
  by (auto simp: resize_ready_def handlePointerMove_def Let_def split: option.splits)

lemma resize_ready_handlePointerUp:
  "resize_ready s \<Longrightarrow> resize_ready (handlePointerUp p s)"
  by (auto simp: resize_ready_def handlePointerUp_def saveAndBroadcastBoard_def Let_def
        split: option.splits)

lemma resize_ready_deleteItem:
  "resize_ready s \<Longrightarrow> resize_ready (deleteItem p s ident)"
  by (auto simp: resize_ready_def deleteItem_def saveAndBroadcastBoard_def Let_def
        split: option.splits)

lemma resize_ready_changeItemLayer:
  assumes r: "resize_ready s"
  shows "resize_ready (changeItemLayer p s ident dir)"
proof (cases "currentBoard s")
  case None
  with r show ?thesis by (simp add: changeItemLayer_def)
next
  case (Some b)
  show ?thesis
  proof (cases "ident \<in> item_id ` set (items b)")
    case False
    with r Some show ?thesis by (simp add: changeItemLayer_absent)
  next
    case True
    from changeItemLayer_present [OF Some True, of p dir] obtain i where
      i: "i < length (items b)"
      and eq: "changeItemLayer p s ident dir = saveAndBroadcastBoard p s (b\<lparr> items :=
               (case dir of
                  Front \<Rightarrow> take i (items b) @ drop (Suc i) (items b) @ [items b ! i]
                | Back \<Rightarrow> items b ! i # take i (items b) @ drop (Suc i) (items b)) \<rparr>)"
      by auto
    have sub: "set (case dir of
                  Front \<Rightarrow> take i (items b) @ drop (Suc i) (items b) @ [items b ! i]
                | Back \<Rightarrow> items b ! i # take i (items b) @ drop (Suc i) (items b))
               \<subseteq> set (items b)"
      using i by (cases dir) (auto dest: in_set_takeD in_set_dropD)
    from r Some sub show ?thesis
      by (auto simp: eq resize_ready_def saveAndBroadcastBoard_def Let_def)
  qed
qed

lemma resize_ready_ui_step:
  assumes r: "resize_ready s"
  shows "resize_ready (ui_step p s ev)"
proof (cases "currentBoard s")
  case None
  with r show ?thesis
    by (cases ev)
       (simp_all add: resize_ready_handlePointerMove resize_ready_handlePointerUp)
next
  case (Some b)
  have ne: "item_id (items b ! k) \<noteq> []" if "k < length (items b)" for k
    using r Some that by (auto simp: resize_ready_def)
  show ?thesis
  proof (cases ev)
    case (ItemPointerDown k e)
    with r ne [of k] show ?thesis
      by (simp add: Some item_handlePointerDown_def resize_ready_handlePointerDown)
  next
    case (ResizePointerDown k e)
    with r ne [of k] show ?thesis
      by (simp add: Some item_handleResizePointerDown_def resize_ready_handleResizeStart)
  next
    case (LayerPointerDown k dir)
    with r show ?thesis
      by (simp add: Some item_layerPointerDown_def resize_ready_changeItemLayer)
  next
    case (DeletePointerDown k)
    with r show ?thesis
      by (simp add: Some item_deletePointerDown_def resize_ready_deleteItem)
  next
    case (CanvasPointerMove e)
    with r show ?thesis by (simp add: resize_ready_handlePointerMove)
  next
    case (CanvasPointerUp e)
    with r show ?thesis by (simp add: resize_ready_handlePointerUp)
  next
    case (CanvasPointerLeave e)
    with r show ?thesis by (simp add: resize_ready_handlePointerUp)
  qed
qed

lemma resize_ready_foldl_ui_step:
  "resize_ready s \<Longrightarrow> resize_ready (foldl (ui_step p) s evs)"
  by (induction evs arbitrary: s) (simp_all add: resize_ready_ui_step)

text \<open>
  Claim C3. Take any state reached by pointer events of the board view from a state with
  no interaction, on a board whose item ids are not empty (ids are UUIDs), and let a move
  event find it resizing: no drag id set, resize id \<open>rid\<close>, snapshot \<open>init\<close>. Then the
  snapshot has a width \<open>width0\<close>, and with \<open>dx\<close>, \<open>dy\<close> what the pointer minus the start
  pointer evaluates to, every item with id \<open>rid\<close> gets as width the larger of \<open>50\<close> and
  what \<open>width0 + dx\<close> evaluates to, and as height the larger of \<open>50\<close> and what
  \<open>height0 + dy\<close> evaluates to when the snapshot has a height \<open>height0\<close>, and no height
  when the snapshot has none. Hence the width is at least \<open>50\<close> and a defined height is
  at least \<open>50\<close>, for every delta. The other items are left as they are.
\<close>

theorem resize_move_clamped:
  assumes "draggedItemId s0 = None" and "resizingItemId s0 = None"
    and "itemInitialState s0 = None"
    and "currentBoard s0 = Some b0" and "\<forall>i \<in> set (items b0). item_id i \<noteq> []"
    and "s = foldl (ui_step p) s0 evs"
    and "currentBoard s = Some b" and "itemInitialState s = Some init"
    and "\<not> truthy_str (draggedItemId s)" and "resizingItemId s = Some rid"
  shows "\<exists>width0 b'.
           item_width init = Some width0 \<and>
           currentBoard (handlePointerMove p s e) = Some b' \<and>
           length (items b') = length (items b) \<and>
           (\<forall>k < length (items b).
              (item_id (items b ! k) = rid \<longrightarrow>
                 item_width (items b' ! k) =
                   Some (max 50 (num_add p width0
                                   (num_sub p (clientX e) (pt_x (interactionStart s))))) \<and>
                 item_height (items b' ! k) =
                   (case item_height init of
                      None \<Rightarrow> None
                    | Some height0 \<Rightarrow>
                        Some (max 50 (num_add p height0
                                        (num_sub p (clientY e) (pt_y (interactionStart s)))))) \<and>
                 (\<exists>w. item_width (items b' ! k) = Some w \<and> 50 \<le> w) \<and>
                 (\<forall>h. item_height (items b' ! k) = Some h \<longrightarrow> 50 \<le> h)) \<and>
              (item_id (items b ! k) \<noteq> rid \<longrightarrow> items b' ! k = items b ! k))"
proof -
  have "resize_ready s0"
    using assms(1-5) by (simp add: resize_ready_def)
  then have rr: "resize_ready s"
    unfolding assms(6) by (rule resize_ready_foldl_ui_step)
  from rr assms(10) have rid: "rid \<noteq> []"
    by (auto simp: resize_ready_def)
  from rr assms(9) have "draggedItemId s = None"
    by (cases "draggedItemId s") (auto simp: resize_ready_def truthy_str_def)
  with rr assms(8) have "sized init"
    by (simp add: resize_ready_def)
  then obtain width0 where w: "item_width init = Some width0" "width0 \<noteq> 0"
    and h: "item_height init \<noteq> Some 0"
    by (auto simp: sized_def)
  show ?thesis
    using w h
    by (intro exI [of _ width0])
       (auto simp: handlePointerMove_resizing [OF assms(7,8,9,10) rid] resize_item_def
          js_or_num_def split: option.splits)
qed

theorem resize_move_clamped_witness:
  "draggedItemId sample_app = None \<and> resizingItemId sample_app = None \<and>
   itemInitialState sample_app = None \<and> currentBoard sample_app = Some sample_board \<and>
   item_id emoji_item \<noteq> [] \<and> item_id text_item \<noteq> [] \<and>
   currentBoard
     (foldl (ui_step sample_platform) sample_app [ResizePointerDown 0 (pointer_at 7 70)])
     = Some sample_board \<and>
   itemInitialState
     (foldl (ui_step sample_platform) sample_app [ResizePointerDown 0 (pointer_at 7 70)])
     = Some (emoji_item\<lparr> item_width := Some 100, item_height := Some 100 \<rparr>) \<and>
   \<not> truthy_str (draggedItemId
     (foldl (ui_step sample_platform) sample_app [ResizePointerDown 0 (pointer_at 7 70)])) \<and>
   resizingItemId
     (foldl (ui_step sample_platform) sample_app [ResizePointerDown 0 (pointer_at 7 70)])
     = Some ''e1'' \<and>
   currentBoard
     (handlePointerMove sample_platform
        (foldl (ui_step sample_platform) sample_app [ResizePointerDown 0 (pointer_at 7 70)])
        (pointer_at 27 10))
     = Some (sample_board\<lparr> items :=
         [emoji_item\<lparr> item_width := Some 120, item_height := Some 50 \<rparr>, text_item] \<rparr>)"
  using resize_move_clamped
    [where ?s0.0 = sample_app and ?b0.0 = sample_board and p = sample_platform
       and evs = "[ResizePointerDown 0 (pointer_at 7 70)]"
       and s = "foldl (ui_step sample_platform) sample_app [ResizePointerDown 0 (pointer_at 7 70)]"
       and b = sample_board
       and init = "emoji_item\<lparr> item_width := Some 100, item_height := Some 100 \<rparr>"
       and rid = "''e1''" and e = "pointer_at 27 10"]
  by (simp add: isAuthorized_def item_handleResizePointerDown_def handleResizeStart_def
        handlePointerMove_def resize_item_def js_or_num_def js_or_def truthy_num_def
        truthy_str_def defaultWidth_def defaultHeight_def Let_def)

text \<open>
  Claim C9. \<open>handleResizeStart\<close> on an item of the current board whose defined sizes are
  at least \<open>50\<close> (the data model's: sizes are the creation defaults or clamped by a
  resize) records the pointer and a snapshot of the item whose width and height are the
  item's own when defined, and otherwise the default of the item's type: width \<open>250\<close>
  and no height for TEXT, \<open>100\<close> by \<open>100\<close> for EMOJI, \<open>200\<close> by \<open>200\<close> for IMAGE and
  STICKER. For an EMOJI item without width and height (and with no drag id set), a move
  whose pointer minus the start pointer evaluates to \<open>(20, -60)\<close> gives the item width
  \<open>120\<close> and height \<open>50\<close>, the sums \<open>100 + 20\<close> and \<open>100 + (-60)\<close> being evaluated
  exactly.
\<close>

theorem handleResizeStart_snapshot:
  assumes "currentBoard s = Some b"
    and "find (\<lambda>i. item_id i = ident) (items b) = Some it"
    and "\<forall>w. item_width it = Some w \<longrightarrow> 50 \<le> w"
    and "\<forall>h. item_height it = Some h \<longrightarrow> 50 \<le> h"
  shows "resizingItemId (handleResizeStart s e ident) = Some ident \<and>
         interactionStart (handleResizeStart s e ident) = \<lparr> pt_x = clientX e, pt_y = clientY e \<rparr> \<and>
         itemInitialState (handleResizeStart s e ident) =
           Some (it\<lparr>
             item_width := Some
               (case item_width it of
                  Some w \<Rightarrow> w
                | None \<Rightarrow> (case item_type it of
                             TEXT \<Rightarrow> 250 | EMOJI \<Rightarrow> 100 | IMAGE \<Rightarrow> 200 | STICKER \<Rightarrow> 200)),
             item_height :=
               (case item_height it of
                  Some h \<Rightarrow> Some h
                | None \<Rightarrow> (case item_type it of
                             TEXT \<Rightarrow> None | EMOJI \<Rightarrow> Some 100
                           | IMAGE \<Rightarrow> Some 200 | STICKER \<Rightarrow> Some 200)) \<rparr>) \<and>
         (item_type it = EMOJI \<and> item_width it = None \<and> item_height it = None \<and>
          ident \<noteq> [] \<and> \<not> truthy_str (draggedItemId s) \<and>
          num_sub p (clientX e') (clientX e) = 20 \<and> num_sub p (clientY e') (clientY e) = - 60 \<and>
          num_add p 100 20 = 120 \<and> num_add p 100 (- 60) = 40 \<longrightarrow>
            (\<exists>b'. currentBoard (handlePointerMove p (handleResizeStart s e ident) e') = Some b' \<and>
                  find (\<lambda>i. item_id i = ident) (items b') =
                    Some (it\<lparr> item_width := Some 120, item_height := Some 50 \<rparr>)))"
proof (intro conjI impI)
  let ?s1 = "handleResizeStart s e ident"
  note s1 = handleResizeStart_found [OF assms(1,2), of e]
  show "resizingItemId ?s1 = Some ident"
    and "interactionStart ?s1 = \<lparr> pt_x = clientX e, pt_y = clientY e \<rparr>"
    by (simp_all add: s1)
  have wz: "w \<noteq> 0" if "item_width it = Some w" for w
    using assms(3) that by fastforce
  have hz: "h \<noteq> 0" if "item_height it = Some h" for h
    using assms(4) that by fastforce
  show "itemInitialState ?s1 =
           Some (it\<lparr>
             item_width := Some
               (case item_width it of
                  Some w \<Rightarrow> w
                | None \<Rightarrow> (case item_type it of
                             TEXT \<Rightarrow> 250 | EMOJI \<Rightarrow> 100 | IMAGE \<Rightarrow> 200 | STICKER \<Rightarrow> 200)),
             item_height :=
               (case item_height it of
                  Some h \<Rightarrow> Some h
                | None \<Rightarrow> (case item_type it of
                             TEXT \<Rightarrow> None | EMOJI \<Rightarrow> Some 100
                           | IMAGE \<Rightarrow> Some 200 | STICKER \<Rightarrow> Some 200)) \<rparr>)"
    using wz hz
    by (simp add: s1 js_or_num_def js_or_def truthy_num_def defaultWidth_cases
          defaultHeight_cases split: option.splits)
  assume sc: "item_type it = EMOJI \<and> item_width it = None \<and> item_height it = None \<and>
          ident \<noteq> [] \<and> \<not> truthy_str (draggedItemId s) \<and>
          num_sub p (clientX e') (clientX e) = 20 \<and> num_sub p (clientY e') (clientY e) = - 60 \<and>
          num_add p 100 20 = 120 \<and> num_add p 100 (- 60) = 40"
  let ?init = "it\<lparr> item_width := Some 100, item_height := Some 100 \<rparr>"
  have c: "currentBoard ?s1 = Some b" "itemInitialState ?s1 = Some ?init"
    "\<not> truthy_str (draggedItemId ?s1)" "resizingItemId ?s1 = Some ident"
    "interactionStart ?s1 = \<lparr> pt_x = clientX e, pt_y = clientY e \<rparr>"
    using sc assms(1)
    by (simp_all add: s1 js_or_num_def js_or_def truthy_num_def defaultWidth_def
          defaultHeight_def)
  have idit: "item_id it = ident"
    using assms(2) by (auto simp: find_Some_iff)
  let ?g = "\<lambda>item. if item_id item = ident
              then resize_item p ?init (num_sub p (clientX e') (pt_x (interactionStart ?s1)))
                     (num_sub p (clientY e') (pt_y (interactionStart ?s1))) item
              else item"
  have mv: "handlePointerMove p ?s1 e' = ?s1\<lparr> currentBoard := Some (b\<lparr> items := map ?g (items b) \<rparr>) \<rparr>"
    using sc by (intro handlePointerMove_resizing c) simp
  have "find (\<lambda>i. item_id i = ident) (map ?g (items b)) =
        map_option ?g (find (\<lambda>i. item_id i = ident) (items b))"
    by (rule find_map_same) simp
  then have "find (\<lambda>i. item_id i = ident) (map ?g (items b)) =
        Some (it\<lparr> item_width := Some 120, item_height := Some 50 \<rparr>)"
    using sc by (simp add: assms(2) idit c(5) resize_item_def js_or_num_def)
  then show "\<exists>b'. currentBoard (handlePointerMove p ?s1 e') = Some b' \<and>
                  find (\<lambda>i. item_id i = ident) (items b') =
                    Some (it\<lparr> item_width := Some 120, item_height := Some 50 \<rparr>)"
    by (simp add: mv)
qed

theorem handleResizeStart_snapshot_witness:
  "currentBoard sample_app = Some sample_board \<and>
   find (\<lambda>i. item_id i = ''e1'') (items sample_board) = Some emoji_item \<and>
   item_type emoji_item = EMOJI \<and> item_width emoji_item = None \<and>
   item_height emoji_item = None \<and> ''e1'' \<noteq> [] \<and>
   \<not> truthy_str (draggedItemId sample_app) \<and>
   num_sub sample_platform (clientX (pointer_at 27 10)) (clientX (pointer_at 7 70)) = 20 \<and>
   num_sub sample_platform (clientY (pointer_at 27 10)) (clientY (pointer_at 7 70)) = - 60 \<and>
   num_add sample_platform 100 20 = 120 \<and> num_add sample_platform 100 (- 60) = 40 \<and>
   itemInitialState (handleResizeStart sample_app (pointer_at 7 70) ''e1'')
     = Some (emoji_item\<lparr> item_width := Some 100, item_height := Some 100 \<rparr>) \<and>
   currentBoard
     (handlePointerMove sample_platform
        (handleResizeStart sample_app (pointer_at 7 70) ''e1'') (pointer_at 27 10))
     = Some (sample_board\<lparr> items :=
         [emoji_item\<lparr> item_width := Some 120, item_height := Some 50 \<rparr>, text_item] \<rparr>) \<and>
   find (\<lambda>i. item_id i = ''t1'') (items sample_board) = Some text_item \<and>
   item_width text_item = Some 250 \<and> (50 :: real) \<le> 250 \<and>
   itemInitialState (handleResizeStart sample_app (pointer_at 7 70) ''t1'')
     = Some text_item"
  using handleResizeStart_snapshot
    [where s = sample_app and b = sample_board and ident = "''e1''" and it = emoji_item
       and e = "pointer_at 7 70" and e' = "pointer_at 27 10" and p = sample_platform]
    handleResizeStart_snapshot
    [where s = sample_app and b = sample_board and ident = "''t1''" and it = text_item
       and e = "pointer_at 7 70" and e' = "pointer_at 27 10" and p = sample_platform]
  by (simp add: handleResizeStart_def handlePointerMove_def resize_item_def js_or_num_def
        js_or_def truthy_num_def truthy_str_def defaultWidth_def defaultHeight_def Let_def)

section \<open>The interaction slot\<close>

lemma find_nth_id:
  assumes "k < length xs"
  shows "\<exists>a. find (\<lambda>i. f i = f (xs ! k)) xs = Some a"
proof (cases "find (\<lambda>i. f i = f (xs ! k)) xs")
  case None
  then have "f (xs ! k) \<noteq> f (xs ! k)"
    using nth_mem [OF assms] by (auto simp: find_None_iff)
  then show ?thesis by simp
next
  case (Some a)
  then show ?thesis by blast
qed

text \<open>
  Claim C5, as the code has it. The start handlers do not look at the interaction state,
  so a start is not turned away because an interaction is active. In every state, also
  one in which a drag or a resize is active, a pointer-down on an item by a user
  authorized for it sets the dragged id to the item's id and replaces the start pointer
  and the snapshot by the pointer and the item found under that id; a pointer-down on
  the item's resize handle sets the resized id to the item's id and replaces the start
  pointer and the snapshot likewise, the snapshot with the sizes defaulted. A start is
  ignored, the state staying as it is, when the user is not authorized for the item.
\<close>

theorem authorized_start_not_ignored:
  assumes "currentBoard s = Some b" and "k < length (items b)"
  shows "\<exists>it. find (\<lambda>i. item_id i = item_id (items b ! k)) (items b) = Some it \<and>
           (isAuthorized (user s) (items b ! k) (host b) \<longrightarrow>
              draggedItemId (ui_step p s (ItemPointerDown k e)) = Some (item_id (items b ! k)) \<and>
              interactionStart (ui_step p s (ItemPointerDown k e))
                = \<lparr> pt_x = clientX e, pt_y = clientY e \<rparr> \<and>
              itemInitialState (ui_step p s (ItemPointerDown k e)) = Some it \<and>
              resizingItemId (ui_step p s (ResizePointerDown k e)) = Some (item_id (items b ! k)) \<and>
              interactionStart (ui_step p s (ResizePointerDown k e))
                = \<lparr> pt_x = clientX e, pt_y = clientY e \<rparr> \<and>
              itemInitialState (ui_step p s (ResizePointerDown k e))
                = Some (it
                    \<lparr> item_width := Some (js_or_num (item_width it) (defaultWidth (item_type it))),
                      item_height := js_or (item_height it) (defaultHeight (item_type it)) \<rparr>)) \<and>
           (\<not> isAuthorized (user s) (items b ! k) (host b) \<longrightarrow>
              ui_step p s (ItemPointerDown k e) = s \<and>
              ui_step p s (ResizePointerDown k e) = s)"
proof -
  from find_nth_id [OF assms(2), of item_id] obtain it where
    it: "find (\<lambda>i. item_id i = item_id (items b ! k)) (items b) = Some it" by blast
  show ?thesis
    using assms it
    by (intro exI [of _ it])
       (simp add: item_handlePointerDown_def item_handleResizePointerDown_def
          handlePointerDown_def handleResizeStart_def)
qed

theorem authorized_start_not_ignored_witness:
  "currentBoard (ui_step sample_platform host_app (ItemPointerDown 0 (pointer_at 1 1)))
     = Some sample_board \<and>
   Suc 0 < length (items sample_board) \<and>
   isAuthorized (user (ui_step sample_platform host_app (ItemPointerDown 0 (pointer_at 1 1))))
     (items sample_board ! Suc 0) (host sample_board) \<and>
   draggedItemId (ui_step sample_platform host_app (ItemPointerDown 0 (pointer_at 1 1)))
     = Some ''e1'' \<and>
   draggedItemId
     (ui_step sample_platform
        (ui_step sample_platform host_app (ItemPointerDown 0 (pointer_at 1 1)))
        (ItemPointerDown (Suc 0) (pointer_at 7 7))) = Some ''t1'' \<and>
   \<not> isAuthorized (user (ui_step sample_platform sample_app (ItemPointerDown 0 (pointer_at 1 1))))
     (items sample_board ! Suc 0) (host sample_board) \<and>
   draggedItemId
     (ui_step sample_platform
        (ui_step sample_platform sample_app (ItemPointerDown 0 (pointer_at 1 1)))
        (ItemPointerDown (Suc 0) (pointer_at 7 7))) = Some ''e1''"
  using authorized_start_not_ignored
    [where s = "ui_step sample_platform host_app (ItemPointerDown 0 (pointer_at 1 1))"
       and b = sample_board and k = "Suc 0" and p = sample_platform and e = "pointer_at 7 7"]
    authorized_start_not_ignored
    [where s = "ui_step sample_platform sample_app (ItemPointerDown 0 (pointer_at 1 1))"
       and b = sample_board and k = "Suc 0" and p = sample_platform and e = "pointer_at 7 7"]
  by (simp add: isAuthorized_def item_handlePointerDown_def handlePointerDown_def)

text \<open>
  Claim C5 as stated fails. The board's host presses the item \<open>e1\<close> and, while that drag
  is active, the item \<open>t1\<close>: the second pointer-down is not ignored; it replaces the
  dragged id, the start pointer and the snapshot. A pointer-down on the resize handle of
  \<open>t1\<close> in its place replaces the start pointer and the snapshot too.
\<close>

theorem second_start_counterexample:
  "draggedItemId (ui_step sample_platform host_app (ItemPointerDown 0 (pointer_at 1 1)))
     = Some ''e1'' \<and>
   interactionStart (ui_step sample_platform host_app (ItemPointerDown 0 (pointer_at 1 1)))
     = \<lparr> pt_x = 1, pt_y = 1 \<rparr> \<and>
   itemInitialState (ui_step sample_platform host_app (ItemPointerDown 0 (pointer_at 1 1)))
     = Some emoji_item \<and>
   draggedItemId
     (ui_step sample_platform
        (ui_step sample_platform host_app (ItemPointerDown 0 (pointer_at 1 1)))
        (ItemPointerDown (Suc 0) (pointer_at 7 7))) = Some ''t1'' \<and>
   interactionStart
     (ui_step sample_platform
        (ui_step sample_platform host_app (ItemPointerDown 0 (pointer_at 1 1)))
        (ItemPointerDown (Suc 0) (pointer_at 7 7))) = \<lparr> pt_x = 7, pt_y = 7 \<rparr> \<and>
   itemInitialState
     (ui_step sample_platform
        (ui_step sample_platform host_app (ItemPointerDown 0 (pointer_at 1 1)))
        (ItemPointerDown (Suc 0) (pointer_at 7 7))) = Some text_item \<and>
   interactionStart
     (ui_step sample_platform
        (ui_step sample_platform host_app (ItemPointerDown 0 (pointer_at 1 1)))
        (ResizePointerDown (Suc 0) (pointer_at 7 7))) = \<lparr> pt_x = 7, pt_y = 7 \<rparr> \<and>
   itemInitialState
     (ui_step sample_platform
        (ui_step sample_platform host_app (ItemPointerDown 0 (pointer_at 1 1)))
        (ResizePointerDown (Suc 0) (pointer_at 7 7))) = Some text_item"
  by (simp add: isAuthorized_def item_handlePointerDown_def item_handleResizePointerDown_def
        handlePointerDown_def handleResizeStart_def js_or_num_def js_or_def truthy_num_def
        defaultWidth_def defaultHeight_def)

section \<open>Authorization at the item component\<close>

lemma filter_map_other:
  assumes "\<And>a. P (f a) = P a" and "\<And>a. P a \<Longrightarrow> \<not> Q a"
  shows "filter P (map (\<lambda>a. if Q a then f a else a) xs) = filter P xs"
  using assms by (induction xs) auto

lemma filter_remove_nth_other:
  assumes "i < length xs" and "\<not> P (xs ! i)"
  shows "filter P (take i xs @ drop (Suc i) xs) = filter P xs"
proof -
  have "filter P xs = filter P (take i xs @ xs ! i # drop (Suc i) xs)"
    using assms(1) by (simp add: id_take_nth_drop [symmetric])
  with assms(2) show ?thesis by simp
qed

lemma guarded_currentBoard:
  assumes "guarded u h iid xs s" and "currentBoard s = Some b'"
  shows "host b' = h" and "filter (\<lambda>i. item_id i = iid) (items b') = xs" and "user s = u"
  using assms by (auto simp: guarded_def)

lemma guarded_update:
  assumes "guarded u h iid xs s" and "currentBoard s = Some b'"
    and "currentBoard s' = Some (b'\<lparr> items := its \<rparr>)"
    and "filter (\<lambda>i. item_id i = iid) its = filter (\<lambda>i. item_id i = iid) (items b')"
    and "user s' = user s"
    and "draggedItemId s' \<noteq> Some iid" and "resizingItemId s' \<noteq> Some iid"
  shows "guarded u h iid xs s'"
  using assms by (auto simp: guarded_def)

lemma guarded_handlePointerMove:
  assumes g: "guarded u h iid xs s"
  shows "guarded u h iid xs (handlePointerMove p s e)"
proof -
  from g obtain b' where cb: "currentBoard s = Some b'"
    and d: "draggedItemId s \<noteq> Some iid" and r: "resizingItemId s \<noteq> Some iid"
    by (auto simp: guarded_def)
  show ?thesis
  proof (cases "itemInitialState s")
    case None
    with g show ?thesis by (simp add: handlePointerMove_def cb)
  next
    case (Some init)
    have fd: "filter (\<lambda>i. item_id i = iid)
        (map (\<lambda>a. if Some (item_id a) = draggedItemId s then drag_item p init dx dy a else a)
           (items b')) = filter (\<lambda>i. item_id i = iid) (items b')" for dx dy
      using d by (intro filter_map_other) auto
    have fr: "filter (\<lambda>i. item_id i = iid)
        (map (\<lambda>a. if Some (item_id a) = resizingItemId s then resize_item p init dx dy a else a)
           (items b')) = filter (\<lambda>i. item_id i = iid) (items b')" for dx dy
      using r by (intro filter_map_other) auto
    show ?thesis
      using g d r
      by (auto simp: handlePointerMove_def cb Some Let_def fd fr
            intro!: guarded_update [OF g cb])
  qed
qed

lemma guarded_handlePointerUp:
  assumes "guarded u h iid xs s"
  shows "guarded u h iid xs (handlePointerUp p s)"
  using assms
  by (auto simp: guarded_def handlePointerUp_def saveAndBroadcastBoard_def Let_def
        split: if_splits)

lemma guarded_handlePointerDown:
  assumes "guarded u h iid xs s" and "ident \<noteq> iid"
  shows "guarded u h iid xs (handlePointerDown s e ident)"
  using assms
  by (auto simp: guarded_def handlePointerDown_def split: option.splits)

lemma guarded_handleResizeStart:
  assumes "guarded u h iid xs s" and "ident \<noteq> iid"
  shows "guarded u h iid xs (handleResizeStart s e ident)"
  using assms
  by (auto simp: guarded_def handleResizeStart_def split: option.splits)

lemma guarded_deleteItem:
  assumes g: "guarded u h iid xs s" and ne: "ident \<noteq> iid"
  shows "guarded u h iid xs (deleteItem p s ident)"
proof -
  from g obtain b' where cb: "currentBoard s = Some b'"
    and d: "draggedItemId s \<noteq> Some iid" and r: "resizingItemId s \<noteq> Some iid"
    by (auto simp: guarded_def)
  have "filter (\<lambda>i. item_id i = iid) (filter (\<lambda>i. item_id i \<noteq> ident) (items b'))
        = filter (\<lambda>i. item_id i = iid) (items b')"
    using ne by (auto intro: filter_cong)
  then show ?thesis
    using d r
    by (intro guarded_update
          [OF g cb, where its = "filter (\<lambda>i. item_id i \<noteq> ident) (items b')"])
       (simp_all add: deleteItem_def cb saveAndBroadcastBoard_def Let_def)
qed

lemma guarded_changeItemLayer:
  assumes g: "guarded u h iid xs s" and ne: "ident \<noteq> iid"
  shows "guarded u h iid xs (changeItemLayer p s ident dir)"
proof -
  from g obtain b' where cb: "currentBoard s = Some b'"
    and d: "draggedItemId s \<noteq> Some iid" and r: "resizingItemId s \<noteq> Some iid"
    by (auto simp: guarded_def)
  show ?thesis
  proof (cases "ident \<in> item_id ` set (items b')")
    case False
    with g cb show ?thesis by (simp add: changeItemLayer_absent)
  next
    case True
    from changeItemLayer_present [OF cb True, of p dir] obtain i where
      i: "i < length (items b')" "item_id (items b' ! i) = ident"
      and eq: "changeItemLayer p s ident dir = saveAndBroadcastBoard p s (b'\<lparr> items :=
               (case dir of
                  Front \<Rightarrow> take i (items b') @ drop (Suc i) (items b') @ [items b' ! i]
                | Back \<Rightarrow> items b' ! i # take i (items b') @ drop (Suc i) (items b')) \<rparr>)"
      by auto
    let ?its = "case dir of
           Front \<Rightarrow> take i (items b') @ drop (Suc i) (items b') @ [items b' ! i]
         | Back \<Rightarrow> items b' ! i # take i (items b') @ drop (Suc i) (items b')"
    have np: "item_id (items b' ! i) \<noteq> iid"
      using i(2) ne by simp
    have "filter (\<lambda>a. item_id a = iid) (take i (items b') @ drop (Suc i) (items b'))
        = filter (\<lambda>a. item_id a = iid) (items b')"
      using i(1) np by (intro filter_remove_nth_other) simp_all
    then have fl: "filter (\<lambda>a. item_id a = iid) ?its
        = filter (\<lambda>a. item_id a = iid) (items b')"
      using np by (cases dir) simp_all
    show ?thesis
      using d r fl
      by (intro guarded_update [OF g cb, where its = ?its])
         (simp_all add: eq saveAndBroadcastBoard_def Let_def)
  qed
qed

lemma guarded_authorized_id:
  assumes g: "guarded u h iid xs s"
    and cb: "currentBoard s = Some b'" and k: "k < length (items b')"
    and au: "isAuthorized (user s) (items b' ! k) (host b')"
  shows "item_id (items b' ! k) \<noteq> iid"
proof
  assume "item_id (items b' ! k) = iid"
  with k have "items b' ! k \<in> set (filter (\<lambda>i. item_id i = iid) (items b'))" by simp
  with g cb have "\<not> isAuthorized u (items b' ! k) h"
    by (auto simp: guarded_def)
  with au guarded_currentBoard [OF g cb] show False by simp
qed

lemma guarded_ui_step:
  assumes g: "guarded u h iid xs s"
  shows "guarded u h iid xs (ui_step p s ev)"
proof -
  from g obtain b' where cb: "currentBoard s = Some b'" by (auto simp: guarded_def)
  note ne = guarded_authorized_id [OF g cb]
  show ?thesis
  proof (cases ev)
    case (ItemPointerDown k e)
    then show ?thesis
      using ne [of k] g
      by (auto simp: cb item_handlePointerDown_def intro: guarded_handlePointerDown)
  next
    case (ResizePointerDown k e)
    then show ?thesis
      using ne [of k] g
      by (auto simp: cb item_handleResizePointerDown_def intro: guarded_handleResizeStart)
  next
    case (LayerPointerDown k dir)
    then show ?thesis
      using ne [of k] g
      by (auto simp: cb item_layerPointerDown_def intro: guarded_changeItemLayer)
  next
    case (DeletePointerDown k)
    then show ?thesis
      using ne [of k] g
      by (auto simp: cb item_deletePointerDown_def intro: guarded_deleteItem)
  next
    case (CanvasPointerMove e)
    with g show ?thesis by (simp add: guarded_handlePointerMove)
  next
    case (CanvasPointerUp e)
    with g show ?thesis by (simp add: guarded_handlePointerUp)
  next
    case (CanvasPointerLeave e)
    with g show ?thesis by (simp add: guarded_handlePointerUp)
  qed
qed

lemma guarded_foldl_ui_step:
  assumes "guarded u h iid xs s"
  shows "guarded u h iid xs (foldl (ui_step p) s evs)"
  using assms
  by (induction evs arbitrary: s) (simp_all add: guarded_ui_step)

lemma filter_distinct_nth:
  assumes "distinct (map f xs)" and "k < length xs"
  shows "filter (\<lambda>a. f a = f (xs ! k)) xs = [xs ! k]"
  using assms
proof (induction xs arbitrary: k)
  case Nil
  then show ?case by simp
next
  case (Cons a as)
  show ?case
  proof (cases k)
    case 0
    have "filter (\<lambda>c. f c = f a) as = []"
      using Cons.prems(1) by (force simp: filter_empty_conv image_iff)
    with 0 show ?thesis by simp
  next
    case (Suc j)
    with Cons.prems have j: "j < length as" and "f a \<noteq> f (as ! j)"
      by (auto simp: image_iff)
    with Cons.IH [of j] Cons.prems(1) Suc show ?thesis by auto
  qed
qed

text \<open>
  Claim C7. Let the item at position \<open>k\<close> of the current board be one that the current
  user (possibly none) is not authorized for: the user's name is neither the item's
  author nor the board's host. Then a pointer-down on the item and a pointer-down on its
  resize handle leave the state as it is, so no interaction starts. Moreover, from a
  state with no interaction and a board whose item ids are unique, no sequence of
  pointer events of the board view (downs on any items, handles or buttons, moves, ups,
  leaves) changes that item: the current board still holds it, as the only item with
  its id and with all its fields, \<open>x\<close>, \<open>y\<close>, width and height among them.
\<close>

theorem unauthorized_user_never_mutates:
  assumes cb: "currentBoard s = Some b" and k: "k < length (items b)"
    and na: "\<not> isAuthorized (user s) (items b ! k) (host b)"
    and di: "distinct (map item_id (items b))"
    and idle: "draggedItemId s = None" "resizingItemId s = None"
  shows "ui_step p s (ItemPointerDown k e) = s \<and>
         ui_step p s (ResizePointerDown k e) = s \<and>
         (\<exists>b'. currentBoard (foldl (ui_step p) s evs) = Some b' \<and>
               filter (\<lambda>i. item_id i = item_id (items b ! k)) (items b') = [items b ! k])"
proof (intro conjI)
  show "ui_step p s (ItemPointerDown k e) = s"
    using cb k na by (simp add: item_handlePointerDown_def)
  show "ui_step p s (ResizePointerDown k e) = s"
    using cb k na by (simp add: item_handleResizePointerDown_def)
  let ?iid = "item_id (items b ! k)"
  have fl: "filter (\<lambda>i. item_id i = ?iid) (items b) = [items b ! k]"
    by (rule filter_distinct_nth [OF di k])
  have g0: "guarded (user s) (host b) ?iid [items b ! k] s"
    using cb idle na fl by (simp add: guarded_def)
  from guarded_foldl_ui_step [OF g0, of p evs]
  show "\<exists>b'. currentBoard (foldl (ui_step p) s evs) = Some b' \<and>
               filter (\<lambda>i. item_id i = ?iid) (items b') = [items b ! k]"
    by (auto simp: guarded_def)
qed

theorem unauthorized_user_never_mutates_witness:
  "currentBoard sample_app = Some sample_board \<and>
   Suc 0 < length (items sample_board) \<and>
   \<not> isAuthorized (user sample_app) (items sample_board ! Suc 0) (host sample_board) \<and>
   distinct (map item_id (items sample_board)) \<and>
   draggedItemId sample_app = None \<and> resizingItemId sample_app = None \<and>
   map_option items
     (currentBoard (foldl (ui_step sample_platform) sample_app
        [ItemPointerDown (Suc 0) (pointer_at 3 3), CanvasPointerMove (pointer_at 40 40),
         ItemPointerDown 0 (pointer_at 0 0), CanvasPointerMove (pointer_at 5 6),
         ResizePointerDown (Suc 0) (pointer_at 1 1), CanvasPointerMove (pointer_at 9 9),
         CanvasPointerUp (pointer_at 9 9), DeletePointerDown (Suc 0),
         LayerPointerDown 0 Front]))
     = Some [text_item, emoji_item\<lparr> item_x := 19, item_y := 29 \<rparr>]"
  using unauthorized_user_never_mutates
    [where s = sample_app and b = sample_board and k = "Suc 0" and p = sample_platform
       and e = "pointer_at 3 3"
       and evs = "[ItemPointerDown (Suc 0) (pointer_at 3 3), CanvasPointerMove (pointer_at 40 40),
         ItemPointerDown 0 (pointer_at 0 0), CanvasPointerMove (pointer_at 5 6),
         ResizePointerDown (Suc 0) (pointer_at 1 1), CanvasPointerMove (pointer_at 9 9),
         CanvasPointerUp (pointer_at 9 9), DeletePointerDown (Suc 0),
         LayerPointerDown 0 Front]"]
  by (simp add: isAuthorized_def item_handlePointerDown_def item_handleResizePointerDown_def
        item_layerPointerDown_def item_deletePointerDown_def changeItemLayer_def deleteItem_def
        handlePointerDown_def handleResizeStart_def handlePointerMove_def handlePointerUp_def
        saveAndBroadcastBoard_def save_boards_def drag_item_def truthy_str_def Let_def)

section \<open>Loading the boards\<close>

text \<open>
  Claim C8. \<open>loadBoards\<close> always returns a value, whatever the storage holds and whatever
  \<open>JSON.parse\<close> does with it: no exception passes through. When nothing is stored under the
  boards key, and when the stored string makes \<open>JSON.parse\<close> raise, the value returned is
  the empty array.
\<close>

theorem loadBoards_fails_soft:
  "(\<exists>v. loadBoards p st = Inr v) \<and>
   (st STORAGE_KEY_BOARDS = None \<longrightarrow> loadBoards p st = Inr (JArr [])) \<and>
   (st STORAGE_KEY_BOARDS = Some s \<and> JSON_parse p s = Inl err \<longrightarrow>
      loadBoards p st = Inr (JArr []))"
  by (auto simp: loadBoards_def safeJsonParse_def localStorage_getItem_def
        split: option.splits sum.splits)

theorem loadBoards_fails_soft_witness:
  "Map.empty STORAGE_KEY_BOARDS = (None :: string option) \<and>
   loadBoards sample_platform Map.empty = Inr (JArr []) \<and>
   [STORAGE_KEY_BOARDS \<mapsto> ''{not json''] STORAGE_KEY_BOARDS = Some ''{not json'' \<and>
   JSON_parse sample_platform ''{not json'' = Inl SyntaxError \<and>
   loadBoards sample_platform [STORAGE_KEY_BOARDS \<mapsto> ''{not json''] = Inr (JArr [])"
  using loadBoards_fails_soft [of sample_platform Map.empty "''{not json''" SyntaxError]
    loadBoards_fails_soft
      [of sample_platform "[STORAGE_KEY_BOARDS \<mapsto> ''{not json'']" "''{not json''" SyntaxError]
  by simp

text \<open>
  Claim C10. \<open>loadBoards\<close> checks nothing about the shape of what was parsed: for a stored
  non-empty string on which \<open>JSON.parse\<close> succeeds, it returns the parsed value as it is,
  be it a number or an object. \<open>JSON.parse\<close> raising on the empty text (no JSON text is
  empty), the result is the fallback exactly when nothing is stored or parsing fails, and
  the parsed value otherwise.
\<close>

theorem loadBoards_returns_parsed_value:
  "(st STORAGE_KEY_BOARDS = Some s \<and> s \<noteq> [] \<and> JSON_parse p s = Inr v \<longrightarrow>
      loadBoards p st = Inr v) \<and>
   (JSON_parse p [] = Inl err \<longrightarrow>
      loadBoards p st =
        (case st STORAGE_KEY_BOARDS of
           None \<Rightarrow> Inr (JArr [])
         | Some s \<Rightarrow> (case JSON_parse p s of Inl e \<Rightarrow> Inr (JArr []) | Inr v \<Rightarrow> Inr v)))"
  by (auto simp: loadBoards_def safeJsonParse_def localStorage_getItem_def
        split: option.splits sum.splits)

theorem loadBoards_returns_parsed_value_witness:
  "[STORAGE_KEY_BOARDS \<mapsto> ''42''] STORAGE_KEY_BOARDS = Some ''42'' \<and> ''42'' \<noteq> [] \<and>
   JSON_parse sample_platform ''42'' = Inr (JNum 42) \<and>
   JSON_parse sample_platform [] = Inl SyntaxError \<and>
   loadBoards sample_platform [STORAGE_KEY_BOARDS \<mapsto> ''42''] = Inr (JNum 42) \<and>
   JNum 42 \<noteq> JArr []"
  using loadBoards_returns_parsed_value
    [of "[STORAGE_KEY_BOARDS \<mapsto> ''42'']" "''42''" sample_platform "JNum 42" SyntaxError]
  by simp

end
